theory Spec2Isabelle
  imports Main "HOL-Library.Sublist"
begin

section \<open>Python values, exceptions and the collaborators of the agents\<close>

text \<open>
  The values that travel between the model, the tools and the agents are Python objects.
  Those that \<^verbatim>\<open>json.loads\<close> can build and that the tools of the test files return are
  modelled by one datatype; a dict is an association list in insertion order, as a Python
  dict is. Floats are left out.
\<close>

datatype pyval =
    PNone
  | PBool bool
  | PInt int
  | PStr string
  | PList "pyval list"
  | PDict "(pyval \<times> pyval) list"

text \<open>
  Exceptions are values. \<open>ValueError\<close>, \<open>KeyError\<close>, \<open>IndexError\<close>, \<open>TypeError\<close> and
  \<open>UnboundLocalError\<close> are the built-in exceptions the two agents can raise themselves;
  \<open>JSONDecodeError\<close> is raised by \<^verbatim>\<open>json.loads\<close>; \<open>Raised n\<close> is an exception of class
  \<open>n\<close> raised inside a collaborator (the completion client, a tool function, the argument
  validator). \<open>UnknownToolError\<close> and \<open>CyclicDependencyError\<close> are the names of the
  specification's error taxonomy.
\<close>

datatype error =
    ValueError string
  | KeyError pyval
  | IndexError
  | TypeError
  | UnboundLocalError string
  | JSONDecodeError
  | UnknownToolError string
  | CyclicDependencyError
  | Raised string

text \<open>A message of a conversation: the dict \<^verbatim>\<open>{"role": ..., "content": ...}\<close>.\<close>

record message =
  role :: string
  msg_content :: string

text \<open>
  What an agent does to the outside world is recorded in a trace: every completion
  request with the conversation it was made over, and every execution of a tool with
  its keyword arguments and what it returned or raised; for a crew, also every run of
  one of its nodes. The state threaded through the agents is the state \<open>'w\<close> of the
  outside world (whatever the model client and the tool functions depend on and
  change) together with that trace.
\<close>

datatype event =
    Completion "message list"
  | ToolRun string pyval "error + pyval"
  | NodeRun nat

type_synonym 'w st = "'w \<times> event list"

text \<open>
  The external collaborators: the process environment after \<^verbatim>\<open>load_dotenv()\<close>, the
  completion call \<^verbatim>\<open>completions_create(client, messages, model)\<close> (which may fail),
  \<^verbatim>\<open>json.loads\<close>, and \<^verbatim>\<open>validate_arguments(tool_call, signature)\<close> of the tool module.
\<close>

record 'w env =
  getenv :: "string \<Rightarrow> string option"
  completions_create :: "message list \<Rightarrow> string \<Rightarrow> 'w \<Rightarrow> (error + string) \<times> 'w"
  json_loads :: "string \<Rightarrow> error + pyval"
  validate_arguments :: "pyval \<Rightarrow> pyval \<Rightarrow> error + pyval"

text \<open>A completion request, recorded in the trace.\<close>

definition request_completion ::
  "'w env \<Rightarrow> message list \<Rightarrow> string \<Rightarrow> 'w st \<Rightarrow> (error + string) \<times> 'w st" where
  "request_completion env history mdl s =
     (case completions_create env history mdl (fst s) of
        (r, w') \<Rightarrow> (r, (w', snd s @ [Completion history])))"

text \<open>
  Modelled from the spec: \<^verbatim>\<open>build_prompt_structure\<close> and \<^verbatim>\<open>update_chat_history\<close> of
  \<^verbatim>\<open>agentic_patterns.utils.completions\<close> are not among the sources. A prompt structure is
  a role-tagged message; with a tag the prompt is wrapped as \<^verbatim>\<open><tag>prompt</tag>\<close>, the
  form the manual loop of \<^verbatim>\<open>test_react_agent.py\<close> writes for the question. Updating a
  history appends a message of the given role.
\<close>

definition build_prompt_structure :: "string \<Rightarrow> string \<Rightarrow> string \<Rightarrow> message" where
  "build_prompt_structure prompt r tag =
     \<lparr>role = r,
      msg_content = (if tag = [] then prompt
                     else ''<'' @ tag @ ''>'' @ prompt @ ''</'' @ tag @ ''>'')\<rparr>"

definition update_chat_history :: "message list \<Rightarrow> string \<Rightarrow> string \<Rightarrow> message list" where
  "update_chat_history history msg r = history @ [build_prompt_structure msg r []]"

text \<open>
  Modelled from the spec: \<^verbatim>\<open>FixedFirstChatHistory\<close> is not among the sources. It is the
  length-capped buffer with a fixed head: when an append would exceed the configured
  maximum, the oldest message other than the first is dropped before the append.
\<close>

record FixedFirstChatHistory =
  messages :: "message list"
  total_length :: nat

definition fixed_first_append :: "FixedFirstChatHistory \<Rightarrow> message \<Rightarrow> FixedFirstChatHistory" where
  "fixed_first_append h m =
     (if total_length h \<le> length (messages h)
      then h\<lparr>messages := take 1 (messages h) @ drop 2 (messages h) @ [m]\<rparr>
      else h\<lparr>messages := messages h @ [m]\<rparr>)"

definition update_fixed_history ::
  "FixedFirstChatHistory \<Rightarrow> string \<Rightarrow> string \<Rightarrow> FixedFirstChatHistory" where
  "update_fixed_history history msg r = fixed_first_append history (build_prompt_structure msg r [])"

text \<open>Python's \<^verbatim>\<open>sub in s\<close> on strings.\<close>

fun str_contains :: "string \<Rightarrow> string \<Rightarrow> bool" where
  "str_contains sub [] = (sub = [])"
| "str_contains sub (c # cs) = (prefix sub (c # cs) \<or> str_contains sub cs)"


section \<open>The reflection agent\<close>

definition BASE_GENERATION_SYSTEM_PROMPT :: string where
  "BASE_GENERATION_SYSTEM_PROMPT =
     ''\<newline>Your task is to Generate the best content possible for the user's request.\<newline>'' @
     ''If the user provides critique, respond with a revised version of your previous attempt.\<newline>'' @
     ''You must always output the revised content.\<newline>''"

definition BASE_REFLECTION_SYSTEM_PROMPT :: string where
  "BASE_REFLECTION_SYSTEM_PROMPT =
     ''\<newline>You are tasked with generating critique and recommendations to the user's generated content.\<newline>'' @
     ''If the user content has something wrong or something to be improved, output a list of recommendations\<newline>'' @
     ''and critiques. If the user content is ok and there's nothing to change, output this: <OK>\<newline>''"

record ReflectionAgent =
  model :: string

text \<open>
  The constructor reads the credential and refuses to build the agent without it;
  \<^verbatim>\<open>not api_key\<close> holds for an unset variable and for an empty one.
\<close>

definition API_KEY_REQUIRED :: string where
  "API_KEY_REQUIRED =
     ''DEEPSEEK_API_KEY environment variable is required. '' @
     ''Please set it in your .env file or environment.''"

definition ReflectionAgent_init :: "'w env \<Rightarrow> string \<Rightarrow> error + ReflectionAgent" where
  "ReflectionAgent_init env mdl =
     (case getenv env ''DEEPSEEK_API_KEY'' of
        None \<Rightarrow> Inl (ValueError API_KEY_REQUIRED)
      | Some api_key \<Rightarrow>
          if api_key = [] then Inl (ValueError API_KEY_REQUIRED)
          else Inr \<lparr>model = mdl\<rparr>)"

text \<open>
  \<^verbatim>\<open>generate\<close> and \<^verbatim>\<open>reflect\<close> both go through \<^verbatim>\<open>_request_completion\<close>; they differ in
  the title and colour of what they print, which is not modelled.
\<close>

definition generate ::
  "'w env \<Rightarrow> ReflectionAgent \<Rightarrow> FixedFirstChatHistory \<Rightarrow> 'w st \<Rightarrow> (error + string) \<times> 'w st" where
  "generate env self generation_history s =
     request_completion env (messages generation_history) (model self) s"

definition reflect ::
  "'w env \<Rightarrow> ReflectionAgent \<Rightarrow> FixedFirstChatHistory \<Rightarrow> 'w st \<Rightarrow> (error + string) \<times> 'w st" where
  "reflect env self reflection_history s =
     request_completion env (messages reflection_history) (model self) s"

text \<open>
  The local variables of \<^verbatim>\<open>run\<close> that the loop changes. \<open>generation\<close> is unbound until
  the first pass through the loop body has assigned it.
\<close>

record reflection_locals =
  generation_history :: FixedFirstChatHistory
  reflection_history :: FixedFirstChatHistory
  generation :: "string option"

text \<open>
  The \<^verbatim>\<open>for step in range(n_steps)\<close> loop, with the number of steps left. An exception of
  a completion leaves the loop with the locals as they were at that point.
\<close>

fun reflection_loop ::
  "'w env \<Rightarrow> ReflectionAgent \<Rightarrow> nat \<Rightarrow> reflection_locals \<Rightarrow> 'w st
     \<Rightarrow> (error + unit) \<times> reflection_locals \<times> 'w st" where
  "reflection_loop env self 0 l s = (Inr (), l, s)"
| "reflection_loop env self (Suc n) l s =
     (case generate env self (generation_history l) s of
        (Inl e, s1) \<Rightarrow> (Inl e, l, s1)
      | (Inr g, s1) \<Rightarrow>
          let l1 = l\<lparr>generation_history := update_fixed_history (generation_history l) g ''assistant'',
                     reflection_history := update_fixed_history (reflection_history l) g ''user'',
                     generation := Some g\<rparr>
          in (case reflect env self (reflection_history l1) s1 of
                (Inl e, s2) \<Rightarrow> (Inl e, l1, s2)
              | (Inr critique, s2) \<Rightarrow>
                  if str_contains ''<OK>'' critique then (Inr (), l1, s2)
                  else reflection_loop env self n
                         (l1\<lparr>generation_history :=
                                update_fixed_history (generation_history l1) critique ''user'',
                              reflection_history :=
                                update_fixed_history (reflection_history l1) critique ''assistant''\<rparr>)
                         s2))"

definition reflection_initial :: "string \<Rightarrow> string \<Rightarrow> string \<Rightarrow> reflection_locals" where
  "reflection_initial user_msg generation_system_prompt reflection_system_prompt =
     \<lparr>generation_history =
        \<lparr>messages =
           [build_prompt_structure (generation_system_prompt @ BASE_GENERATION_SYSTEM_PROMPT) ''system'' [],
            build_prompt_structure user_msg ''user'' []],
         total_length = 3\<rparr>,
      reflection_history =
        \<lparr>messages =
           [build_prompt_structure (reflection_system_prompt @ BASE_REFLECTION_SYSTEM_PROMPT) ''system'' []],
         total_length = 3\<rparr>,
      generation = None\<rparr>"

text \<open>
  \<^verbatim>\<open>ReflectionAgent.run\<close>, returning the locals at the point where it returned or raised
  besides its result. \<^verbatim>\<open>verbose\<close> only selects what is printed and is left out. \<^verbatim>\<open>range(n_steps)\<close> is empty for \<open>n_steps \<le> 0\<close>, and then
  \<^verbatim>\<open>return generation\<close> reads an unbound local.
\<close>

definition ReflectionAgent_run_locals ::
  "'w env \<Rightarrow> ReflectionAgent \<Rightarrow> string \<Rightarrow> string \<Rightarrow> string \<Rightarrow> int \<Rightarrow> 'w st
     \<Rightarrow> (error + string) \<times> reflection_locals \<times> 'w st" where
  "ReflectionAgent_run_locals env self user_msg generation_system_prompt reflection_system_prompt n_steps s =
     (case reflection_loop env self (nat n_steps)
             (reflection_initial user_msg generation_system_prompt reflection_system_prompt) s of
        (Inl e, l, s') \<Rightarrow> (Inl e, l, s')
      | (Inr u, l, s') \<Rightarrow>
          (case generation l of
             None \<Rightarrow> (Inl (UnboundLocalError ''generation''), l, s')
           | Some g \<Rightarrow> (Inr g, l, s')))"

definition ReflectionAgent_run ::
  "'w env \<Rightarrow> ReflectionAgent \<Rightarrow> string \<Rightarrow> string \<Rightarrow> string \<Rightarrow> int \<Rightarrow> 'w st
     \<Rightarrow> (error + string) \<times> 'w st" where
  "ReflectionAgent_run env self user_msg generation_system_prompt reflection_system_prompt n_steps s =
     (case ReflectionAgent_run_locals env self user_msg generation_system_prompt
             reflection_system_prompt n_steps s of
        (r, l, s') \<Rightarrow> (r, s'))"


section \<open>Tag extraction, dictionaries and \<^verbatim>\<open>str\<close>\<close>

text \<open>
  Modelled from the spec: \<^verbatim>\<open>extract_tag_content\<close> of \<^verbatim>\<open>agentic_patterns.utils.extraction\<close>
  is not among the sources. Its result has \<open>found\<close> and \<open>content\<close>, the ordered list of
  the raw text strictly between the innermost matching pairs of the opening and the
  closing tag, in order of appearance; an unclosed or unopened tag contributes nothing,
  and \<open>found\<close> is false exactly when nothing was extracted.

  The scanner reads the text once. \<open>cur\<close> is the text read since the last opening tag
  (reversed), if one is open; \<open>skip\<close> counts the characters of a recognised tag that are
  still to be passed over.
\<close>

record TagContentResult =
  content :: "string list"
  found :: bool

fun scan_tags :: "string \<Rightarrow> string \<Rightarrow> string option \<Rightarrow> nat \<Rightarrow> string \<Rightarrow> string list" where
  "scan_tags opn cls cur skip [] = []"
| "scan_tags opn cls cur skip (c # cs) =
     (if 0 < skip then scan_tags opn cls cur (skip - 1) cs
      else if prefix opn (c # cs) then scan_tags opn cls (Some []) (length opn - 1) cs
      else if prefix cls (c # cs) then
        (case cur of
           Some acc \<Rightarrow> rev acc # scan_tags opn cls None (length cls - 1) cs
         | None \<Rightarrow> scan_tags opn cls None (length cls - 1) cs)
      else scan_tags opn cls (map_option ((#) c) cur) 0 cs)"

definition extract_tag_content :: "string \<Rightarrow> string \<Rightarrow> TagContentResult" where
  "extract_tag_content text tag =
     (let matched_contents = scan_tags (''<'' @ tag @ ''>'') (''</'' @ tag @ ''>'') None 0 text
      in \<lparr>content = matched_contents, found = (matched_contents \<noteq> [])\<rparr>)"

text \<open>\<^verbatim>\<open>xs[0]\<close> raises on an empty list.\<close>

definition first :: "'a list \<Rightarrow> error + 'a" where
  "first xs = (case xs of [] \<Rightarrow> Inl IndexError | x # _ \<Rightarrow> Inr x)"

text \<open>
  Keys of a Python dict must be hashable, and two keys are the same key when they are
  equal in Python's sense, where \<^verbatim>\<open>True == 1\<close> and \<^verbatim>\<open>False == 0\<close>. Storing under a key
  that is present replaces the value and keeps the key's place; a new key goes last.
\<close>

fun hashable :: "pyval \<Rightarrow> bool" where
  "hashable (PList _) = False"
| "hashable (PDict _) = False"
| "hashable _ = True"

fun py_eq :: "pyval \<Rightarrow> pyval \<Rightarrow> bool" where
  "py_eq (PBool b) (PInt i) = (i = (if b then 1 else 0))"
| "py_eq (PInt i) (PBool b) = (i = (if b then 1 else 0))"
| "py_eq a b = (a = b)"

fun dict_set :: "(pyval \<times> pyval) list \<Rightarrow> pyval \<Rightarrow> pyval \<Rightarrow> (pyval \<times> pyval) list" where
  "dict_set [] k v = [(k, v)]"
| "dict_set ((k', v') # d) k v =
     (if py_eq k' k then (k', v) # d else (k', v') # dict_set d k v)"

fun dict_get :: "(pyval \<times> pyval) list \<Rightarrow> pyval \<Rightarrow> pyval option" where
  "dict_get [] k = None"
| "dict_get ((k', v') # d) k = (if py_eq k' k then Some v' else dict_get d k)"

definition setitem ::
  "(pyval \<times> pyval) list \<Rightarrow> pyval \<Rightarrow> pyval \<Rightarrow> error + (pyval \<times> pyval) list" where
  "setitem d k v = (if hashable k then Inr (dict_set d k v) else Inl TypeError)"

text \<open>\<^verbatim>\<open>obj[key]\<close> with a string key: a dict looks the key up, anything else is a type error.\<close>

fun getitem :: "pyval \<Rightarrow> string \<Rightarrow> error + pyval" where
  "getitem (PDict d) k =
     (case dict_get d (PStr k) of None \<Rightarrow> Inl (KeyError (PStr k)) | Some v \<Rightarrow> Inr v)"
| "getitem _ k = Inl TypeError"

text \<open>
  Python's \<^verbatim>\<open>str\<close> of these values (\<^verbatim>\<open>repr\<close>, except for a string at top level): decimal
  integers, quoted and escaped strings, and lists and dicts with their elements
  separated by a comma and a space. A character is a code point below 256.
\<close>

function decimal :: "nat \<Rightarrow> string" where
  "decimal n =
     (if n < 10 then [''0123456789'' ! n]
      else decimal (n div 10) @ [''0123456789'' ! (n mod 10)])"
  by pat_completeness auto
termination
  by (relation "measure id") auto

declare decimal.simps [simp del]

definition int_repr :: "int \<Rightarrow> string" where
  "int_repr i = (if i < 0 then ''-'' @ decimal (nat (- i)) else decimal (nat i))"

definition printable :: "char \<Rightarrow> bool" where
  "printable c =
     (let n = (of_char c :: nat) in 32 \<le> n \<and> n < 127 \<or> 160 < n \<and> n \<noteq> 173)"

definition hex2 :: "nat \<Rightarrow> string" where
  "hex2 n = [''0123456789abcdef'' ! (n div 16), ''0123456789abcdef'' ! (n mod 16)]"

definition escape_char :: "char \<Rightarrow> char \<Rightarrow> string" where
  "escape_char quote c =
     (if c = quote \<or> c = CHR 0x5C then [CHR 0x5C, c]
      else if c = CHR 0x09 then [CHR 0x5C, CHR ''t'']
      else if c = CHR 0x0A then [CHR 0x5C, CHR ''n'']
      else if c = CHR 0x0D then [CHR 0x5C, CHR ''r'']
      else if printable c then [c]
      else [CHR 0x5C, CHR ''x''] @ hex2 (of_char c))"

definition str_repr :: "string \<Rightarrow> string" where
  "str_repr s =
     (let quote = (if CHR 0x27 \<in> set s \<and> CHR 0x22 \<notin> set s then CHR 0x22 else CHR 0x27)
      in [quote] @ concat (map (escape_char quote) s) @ [quote])"

fun join_comma :: "string list \<Rightarrow> string" where
  "join_comma [] = []"
| "join_comma [x] = x"
| "join_comma (x # y # ys) = x @ '', '' @ join_comma (y # ys)"

primrec py_repr :: "pyval \<Rightarrow> string" where
  "py_repr PNone = ''None''"
| "py_repr (PBool b) = (if b then ''True'' else ''False'')"
| "py_repr (PInt i) = int_repr i"
| "py_repr (PStr s) = str_repr s"
| "py_repr (PList xs) = ''['' @ join_comma (map py_repr xs) @ '']''"
| "py_repr (PDict d) =
     ''{'' @ join_comma (map (\<lambda>(k, v). k @ '': '' @ v) (map (map_prod py_repr py_repr) d)) @ ''}''"

definition py_str :: "pyval \<Rightarrow> string" where
  "py_str v = (case v of PStr s \<Rightarrow> s | _ \<Rightarrow> py_repr v)"


section \<open>The ReAct agent\<close>

definition BASE_SYSTEM_PROMPT :: string where
  "BASE_SYSTEM_PROMPT = []"

text \<open>
  \<^verbatim>\<open>REACT_SYSTEM_PROMPT\<close> has one \<^verbatim>\<open>%s\<close> and no other per cent sign, so
  \<^verbatim>\<open>REACT_SYSTEM_PROMPT % signatures\<close> is the text before it, the signatures and the text
  after it.
\<close>

definition REACT_SYSTEM_PROMPT_head :: string where
  \<open>REACT_SYSTEM_PROMPT_head =
     ''\<newline>You operate by running a loop with the following steps: Thought, Action, Observation.\<newline>'' @
     ''You are provided with function signatures within <tools></tools> XML tags.\<newline>'' @
     ''You may call one or more functions to assist with the user query. Don' make assumptions about what values to plug\<newline>'' @
     ''into functions. Pay special attention to the properties 'types'. You should use those types as in a Python dict.\<newline>'' @
     ''\<newline>'' @
     ''For each function call return a json object with function name and arguments within <tool_call></tool_call> XML tags as follows:\<newline>'' @
     ''\<newline>'' @
     ''<tool_call>\<newline>'' @
     ''{"name": <function-name>,"arguments": <args-dict>, "id": <monotonically-increasing-id>}\<newline>'' @
     ''</tool_call>\<newline>'' @
     ''\<newline>'' @
     ''Here are the available tools / actions:\<newline>'' @
     ''\<newline>'' @
     ''<tools>\<newline>''\<close>

definition REACT_SYSTEM_PROMPT_tail :: string where
  \<open>REACT_SYSTEM_PROMPT_tail =
     ''\<newline></tools>\<newline>'' @
     ''\<newline>'' @
     ''Example session:\<newline>'' @
     ''\<newline>'' @
     ''<question>What's the current temperature in Madrid?</question>\<newline>'' @
     ''<thought>I need to get the current weather in Madrid</thought>\<newline>'' @
     ''<tool_call>{"name": "get_current_weather","arguments": {"location": "Madrid", "unit": "celsius"}, "id": 0}</tool_call>\<newline>'' @
     ''\<newline>'' @
     ''You will be called again with this:\<newline>'' @
     ''\<newline>'' @
     ''<observation>{0: {"temperature": 25, "unit": "celsius"}}</observation>\<newline>'' @
     ''\<newline>'' @
     ''You then output:\<newline>'' @
     ''\<newline>'' @
     ''<response>The current temperature in Madrid is 25 degrees Celsius</response>\<newline>'' @
     ''\<newline>'' @
     ''Additional constraints:\<newline>'' @
     ''\<newline>'' @
     ''- If the user asks you something unrelated to any of the tools above, answer freely enclosing your answer with <response></response> tags.\<newline>''\<close>

definition REACT_SYSTEM_PROMPT :: "string \<Rightarrow> string" where
  "REACT_SYSTEM_PROMPT signatures = REACT_SYSTEM_PROMPT_head @ signatures @ REACT_SYSTEM_PROMPT_tail"

text \<open>
  A tool as the agent uses it: its name, its signature (a JSON text) and its function,
  called with keyword arguments, which may change the outside world and may raise.
\<close>

record 'w Tool =
  name :: string
  fn_signature :: string
  run :: "pyval \<Rightarrow> 'w \<Rightarrow> (error + pyval) \<times> 'w"

record 'w ReactAgent =
  model :: string
  system_prompt :: string
  tools :: "'w Tool list"
  tools_dict :: "string \<rightharpoonup> 'w Tool"

text \<open>
  The constructor. A single tool has become a one-element list before this point; the
  dict comprehension lets a later tool of the same name replace an earlier one.
\<close>

definition ReactAgent_init ::
  "'w env \<Rightarrow> 'w Tool list \<Rightarrow> string \<Rightarrow> string \<Rightarrow> error + 'w ReactAgent" where
  "ReactAgent_init env tls mdl sysprompt =
     (case getenv env ''DEEPSEEK_API_KEY'' of
        None \<Rightarrow> Inl (ValueError API_KEY_REQUIRED)
      | Some api_key \<Rightarrow>
          if api_key = [] then Inl (ValueError API_KEY_REQUIRED)
          else Inr \<lparr>model = mdl, system_prompt = sysprompt, tools = tls,
                    tools_dict = fold (\<lambda>tool d. d(name tool \<mapsto> tool)) tls Map.empty\<rparr>)"

definition add_tool_signatures :: "'w ReactAgent \<Rightarrow> string" where
  "add_tool_signatures self = concat (map fn_signature (tools self))"

text \<open>\<^verbatim>\<open>self.tools_dict[tool_name]\<close> for whatever value the call carries as its name.\<close>

fun lookup_tool :: "'w ReactAgent \<Rightarrow> pyval \<Rightarrow> error + 'w Tool" where
  "lookup_tool self (PStr n) =
     (case tools_dict self n of None \<Rightarrow> Inl (KeyError (PStr n)) | Some tool \<Rightarrow> Inr tool)"
| "lookup_tool self (PList xs) = Inl TypeError"
| "lookup_tool self (PDict d) = Inl TypeError"
| "lookup_tool self v = Inl (KeyError v)"

text \<open>
  \<^verbatim>\<open>tool.run(**arguments)\<close>: the arguments must be a dict with string keys; the execution
  is recorded in the trace.
\<close>

fun is_str :: "pyval \<Rightarrow> bool" where
  "is_str (PStr s) = True"
| "is_str _ = False"

definition tool_run :: "'w Tool \<Rightarrow> pyval \<Rightarrow> 'w st \<Rightarrow> (error + pyval) \<times> 'w st" where
  "tool_run tool arguments s =
     (case arguments of
        PDict kwargs \<Rightarrow>
          if list_all is_str (map fst kwargs)
          then (case run tool arguments (fst s) of
                  (r, w') \<Rightarrow> (r, (w', snd s @ [ToolRun (name tool) arguments r])))
          else (Inl TypeError, s)
      | _ \<Rightarrow> (Inl TypeError, s))"

text \<open>The body of the loop of \<^verbatim>\<open>process_tool_calls\<close>, for one tool call.\<close>

definition process_tool_call ::
  "'w env \<Rightarrow> 'w ReactAgent \<Rightarrow> (pyval \<times> pyval) list \<Rightarrow> string \<Rightarrow> 'w st
     \<Rightarrow> (error + (pyval \<times> pyval) list) \<times> 'w st" where
  "process_tool_call env self observations tool_call_str s =
     (case json_loads env tool_call_str of
        Inl e \<Rightarrow> (Inl e, s)
      | Inr tool_call \<Rightarrow>
     (case getitem tool_call ''name'' of
        Inl e \<Rightarrow> (Inl e, s)
      | Inr tool_name \<Rightarrow>
     (case lookup_tool self tool_name of
        Inl e \<Rightarrow> (Inl e, s)
      | Inr tool \<Rightarrow>
     (case json_loads env (fn_signature tool) of
        Inl e \<Rightarrow> (Inl e, s)
      | Inr signature \<Rightarrow>
     (case validate_arguments env tool_call signature of
        Inl e \<Rightarrow> (Inl e, s)
      | Inr validated_tool_call \<Rightarrow>
     (case getitem validated_tool_call ''arguments'' of
        Inl e \<Rightarrow> (Inl e, s)
      | Inr arguments \<Rightarrow>
     (case tool_run tool arguments s of
        (Inl e, s') \<Rightarrow> (Inl e, s')
      | (Inr result, s') \<Rightarrow>
     (case getitem validated_tool_call ''id'' of
        Inl e \<Rightarrow> (Inl e, s')
      | Inr call_id \<Rightarrow>
     (case setitem observations call_id result of
        Inl e \<Rightarrow> (Inl e, s')
      | Inr observations' \<Rightarrow> (Inr observations', s'))))))))))"

fun process_tool_calls_from ::
  "'w env \<Rightarrow> 'w ReactAgent \<Rightarrow> (pyval \<times> pyval) list \<Rightarrow> string list \<Rightarrow> 'w st
     \<Rightarrow> (error + (pyval \<times> pyval) list) \<times> 'w st" where
  "process_tool_calls_from env self observations [] s = (Inr observations, s)"
| "process_tool_calls_from env self observations (tool_call_str # rest) s =
     (case process_tool_call env self observations tool_call_str s of
        (Inl e, s') \<Rightarrow> (Inl e, s')
      | (Inr observations', s') \<Rightarrow> process_tool_calls_from env self observations' rest s')"

definition process_tool_calls ::
  "'w env \<Rightarrow> 'w ReactAgent \<Rightarrow> string list \<Rightarrow> 'w st
     \<Rightarrow> (error + (pyval \<times> pyval) list) \<times> 'w st" where
  "process_tool_calls env self tool_calls_content s =
     process_tool_calls_from env self [] tool_calls_content s"

text \<open>
  The \<^verbatim>\<open>for _ in range(max_rounds)\<close> loop of \<^verbatim>\<open>run\<close>, with the number of rounds left.
  It ends with \<open>Inr (Some r)\<close> when a round returned the response \<open>r\<close>, with \<open>Inl e\<close> when
  a round raised, and with \<open>Inr None\<close> when the rounds are used up; the conversation and
  the state are those at that point. The f-string of the thought is evaluated before
  the tool calls are looked at, and it reads \<^verbatim>\<open>thought.content[0]\<close>.
\<close>

fun react_loop ::
  "'w env \<Rightarrow> 'w ReactAgent \<Rightarrow> nat \<Rightarrow> message list \<Rightarrow> 'w st
     \<Rightarrow> (error + string option) \<times> message list \<times> 'w st" where
  "react_loop env self 0 chat_history s = (Inr None, chat_history, s)"
| "react_loop env self (Suc n) chat_history s =
     (case request_completion env chat_history (ReactAgent.model self) s of
        (Inl e, s1) \<Rightarrow> (Inl e, chat_history, s1)
      | (Inr completion, s1) \<Rightarrow>
          let response = extract_tag_content completion ''response'' in
          if found response then
            (case first (content response) of
               Inl e \<Rightarrow> (Inl e, chat_history, s1)
             | Inr r \<Rightarrow> (Inr (Some r), chat_history, s1))
          else
            let thought = extract_tag_content completion ''thought'';
                tool_calls = extract_tag_content completion ''tool_call'';
                chat_history1 = update_chat_history chat_history completion ''assistant''
            in (case first (content thought) of
                  Inl e \<Rightarrow> (Inl e, chat_history1, s1)
                | Inr t \<Rightarrow>
                    if found tool_calls then
                      (case process_tool_calls env self (content tool_calls) s1 of
                         (Inl e, s2) \<Rightarrow> (Inl e, chat_history1, s2)
                       | (Inr observations, s2) \<Rightarrow>
                           react_loop env self n
                             (update_chat_history chat_history1 (py_str (PDict observations)) ''user'')
                             s2)
                    else react_loop env self n chat_history1 s1))"

text \<open>
  \<^verbatim>\<open>ReactAgent.run\<close>. It changes \<^verbatim>\<open>self.system_prompt\<close>, so the agent is returned with
  the result; so is the conversation buffer, a local of \<^verbatim>\<open>run\<close>, as it was when \<^verbatim>\<open>run\<close>
  returned or raised. The last statement is shared by the agent without tools and by
  the loop that has used up its rounds.
\<close>

definition ReactAgent_seed :: "'w ReactAgent \<Rightarrow> string \<Rightarrow> 'w ReactAgent \<times> message list" where
  "ReactAgent_seed self user_msg =
     (let user_prompt = build_prompt_structure user_msg ''user'' ''question'';
          self1 = (if tools self \<noteq> []
                   then self\<lparr>system_prompt :=
                          system_prompt self @ ''\<newline>'' @ REACT_SYSTEM_PROMPT (add_tool_signatures self)\<rparr>
                   else self)
      in (self1, [build_prompt_structure (system_prompt self1) ''system'' [], user_prompt]))"

definition ReactAgent_run_locals ::
  "'w env \<Rightarrow> 'w ReactAgent \<Rightarrow> string \<Rightarrow> int \<Rightarrow> 'w st
     \<Rightarrow> (error + string) \<times> 'w ReactAgent \<times> message list \<times> 'w st" where
  "ReactAgent_run_locals env self user_msg max_rounds s =
     (case ReactAgent_seed self user_msg of
        (self1, chat_history) \<Rightarrow>
          if tools self1 \<noteq> [] then
            (case react_loop env self1 (nat max_rounds) chat_history s of
               (Inl e, chat_history', s') \<Rightarrow> (Inl e, self1, chat_history', s')
             | (Inr (Some r), chat_history', s') \<Rightarrow> (Inr r, self1, chat_history', s')
             | (Inr None, chat_history', s') \<Rightarrow>
                 (case request_completion env chat_history' (ReactAgent.model self1) s' of
                    (r, s'') \<Rightarrow> (r, self1, chat_history', s'')))
          else
            (case request_completion env chat_history (ReactAgent.model self1) s of
               (r, s') \<Rightarrow> (r, self1, chat_history, s')))"

definition ReactAgent_run ::
  "'w env \<Rightarrow> 'w ReactAgent \<Rightarrow> string \<Rightarrow> int \<Rightarrow> 'w st
     \<Rightarrow> (error + string) \<times> 'w ReactAgent \<times> 'w st" where
  "ReactAgent_run env self user_msg max_rounds s =
     (case ReactAgent_run_locals env self user_msg max_rounds s of
        (r, self', chat_history, s') \<Rightarrow> (r, self', s'))"


text \<open>
  The two scripts of the sources that build an agent and run it: \<^verbatim>\<open>test.py\<close> for the
  reflection agent, section 2 of \<^verbatim>\<open>test_react_agent.py\<close> for the ReAct agent. A
  constructor that raises ends the script before \<^verbatim>\<open>run\<close> is reached.
\<close>

definition reflection_script ::
  "'w env \<Rightarrow> string \<Rightarrow> string \<Rightarrow> string \<Rightarrow> int \<Rightarrow> 'w st \<Rightarrow> (error + string) \<times> 'w st" where
  "reflection_script env user_msg generation_system_prompt reflection_system_prompt n_steps s =
     (case ReflectionAgent_init env ''deepseek-chat'' of
        Inl e \<Rightarrow> (Inl e, s)
      | Inr agent \<Rightarrow>
          ReflectionAgent_run env agent user_msg generation_system_prompt reflection_system_prompt
            n_steps s)"

definition react_script ::
  "'w env \<Rightarrow> 'w Tool list \<Rightarrow> string \<Rightarrow> int \<Rightarrow> 'w st \<Rightarrow> (error + string) \<times> 'w st" where
  "react_script env tls user_msg max_rounds s =
     (case ReactAgent_init env tls ''deepseek-chat'' BASE_SYSTEM_PROMPT of
        Inl e \<Rightarrow> (Inl e, s)
      | Inr agent \<Rightarrow>
          (case ReactAgent_run env agent user_msg max_rounds s of (r, agent', s') \<Rightarrow> (r, s')))"


section \<open>Stubs\<close>

text \<open>
  A model stub that answers from a script, one entry per request, and counts the
  requests it has served in the state of the world; a decoder that knows the JSON
  texts of a table; a validator that accepts every call as it is.
\<close>

definition stub_client ::
  "string list \<Rightarrow> message list \<Rightarrow> string \<Rightarrow> nat \<Rightarrow> (error + string) \<times> nat" where
  "stub_client script history mdl w =
     (if w < length script then (Inr (script ! w), Suc w)
      else (Inl (Raised ''StopIteration''), Suc w))"

definition stub_env :: "string option \<Rightarrow> string list \<Rightarrow> (string \<times> pyval) list \<Rightarrow> nat env" where
  "stub_env key script decoded =
     \<lparr>getenv = (\<lambda>v. if v = ''DEEPSEEK_API_KEY'' then key else None),
      completions_create = stub_client script,
      json_loads = (\<lambda>text. case map_of decoded text of
                               None \<Rightarrow> Inl JSONDecodeError
                             | Some v \<Rightarrow> Inr v),
      validate_arguments = (\<lambda>tool_call signature. Inr tool_call)\<rparr>"

text \<open>The tool \<^verbatim>\<open>sum_two_elements\<close> of \<^verbatim>\<open>test_react_agent.py\<close>.\<close>

definition sum_two_elements :: "nat Tool" where
  \<open>sum_two_elements =
     \<lparr>name = ''sum_two_elements'',
      fn_signature = ''{"name": "sum_two_elements"}'',
      run = (\<lambda>kwargs w.
               case (getitem kwargs ''a'', getitem kwargs ''b'') of
                 (Inr (PInt a), Inr (PInt b)) \<Rightarrow> (Inr (PInt (a + b)), w)
               | _ \<Rightarrow> (Inl TypeError, w))\<rparr>\<close>

definition stub_agent :: "nat ReactAgent" where
  "stub_agent =
     \<lparr>model = ''deepseek-chat'', system_prompt = BASE_SYSTEM_PROMPT,
      tools = [sum_two_elements],
      tools_dict = [''sum_two_elements'' \<mapsto> sum_two_elements]\<rparr>"

definition completion_count :: "event list \<Rightarrow> nat" where
  "completion_count tr = length (filter (\<lambda>ev. case ev of Completion h \<Rightarrow> True | _ \<Rightarrow> False) tr)"



text \<open>Three scripted models over the stub: thinking then answering freely, thinking then
  chatting without tags, and answering at once.\<close>

definition two_step_env :: "nat env" where
  "two_step_env = stub_env (Some ''key'') [''<thought>hm</thought>'', ''second answer''] []"

definition chatting_env :: "nat env" where
  "chatting_env = stub_env (Some ''key'') [''<thought>a</thought>'', ''just chatting''] []"



section \<open>The wire format of the specification\<close>

text \<open>
  The observation as the specification words it: a JSON object that maps each call's
  id, as a string key, to the tool's return value. Keys that are not strings become
  strings as \<^verbatim>\<open>json.dumps\<close> makes them; characters outside printable ASCII are escaped.
\<close>

definition json_escape_char :: "char \<Rightarrow> string" where
  "json_escape_char c =
     (if c = CHR 0x22 \<or> c = CHR 0x5C then [CHR 0x5C, c]
      else if c = CHR 0x0A then [CHR 0x5C, CHR ''n'']
      else if c = CHR 0x0D then [CHR 0x5C, CHR ''r'']
      else if c = CHR 0x09 then [CHR 0x5C, CHR ''t'']
      else if c = CHR 0x08 then [CHR 0x5C, CHR ''b'']
      else if c = CHR 0x0C then [CHR 0x5C, CHR ''f'']
      else if 32 \<le> (of_char c :: nat) \<and> (of_char c :: nat) < 127 then [c]
      else [CHR 0x5C, CHR ''u'', CHR ''0'', CHR ''0''] @ hex2 (of_char c))"

definition json_string :: "string \<Rightarrow> string" where
  "json_string s = [CHR 0x22] @ concat (map json_escape_char s) @ [CHR 0x22]"

fun json_key :: "pyval \<Rightarrow> string" where
  "json_key (PStr s) = json_string s"
| "json_key PNone = json_string ''null''"
| "json_key (PBool b) = json_string (if b then ''true'' else ''false'')"
| "json_key v = json_string (py_repr v)"

primrec json_dumps :: "pyval \<Rightarrow> string" where
  "json_dumps PNone = ''null''"
| "json_dumps (PBool b) = (if b then ''true'' else ''false'')"
| "json_dumps (PInt i) = int_repr i"
| "json_dumps (PStr s) = json_string s"
| "json_dumps (PList xs) = ''['' @ join_comma (map json_dumps xs) @ '']''"
| "json_dumps (PDict d) =
     ''{'' @ join_comma (map (\<lambda>(k, v). k @ '': '' @ v) (map (map_prod json_key json_dumps) d)) @ ''}''"

definition observation_json :: "(pyval \<times> pyval) list \<Rightarrow> string" where
  "observation_json observations = json_dumps (PDict observations)"


section \<open>Further stubs\<close>

text \<open>A completion that calls a tool the agent does not have.\<close>

definition divide_call :: string where
  \<open>divide_call = ''{"name": "divide", "arguments": {"a": 1, "b": 2}, "id": 0}''\<close>

definition unknown_tool_env :: "nat env" where
  "unknown_tool_env =
     stub_env (Some ''key'')
       [''<thought>divide them</thought><tool_call>'' @ divide_call @ ''</tool_call>'',
        ''<response>never reached</response>'']
       [(divide_call,
         PDict [(PStr ''name'', PStr ''divide''),
                (PStr ''arguments'', PDict [(PStr ''a'', PInt 1), (PStr ''b'', PInt 2)]),
                (PStr ''id'', PInt 0)])]"


text \<open>A completion that calls \<^verbatim>\<open>sum_two_elements\<close> once, and one that calls it twice
  under the same id.\<close>

definition sum_call :: string where
  \<open>sum_call = ''{"name": "sum_two_elements", "arguments": {"a": 1234, "b": 5678}, "id": 0}''\<close>

definition one_call_env :: "nat env" where
  "one_call_env =
     stub_env (Some ''key'')
       [''<thought>add them</thought><tool_call>'' @ sum_call @ ''</tool_call>'',
        ''<response>6912</response>'']
       [(sum_call,
         PDict [(PStr ''name'', PStr ''sum_two_elements''),
                (PStr ''arguments'', PDict [(PStr ''a'', PInt 1234), (PStr ''b'', PInt 5678)]),
                (PStr ''id'', PInt 0)]),
        (fn_signature sum_two_elements, PDict [(PStr ''name'', PStr ''sum_two_elements'')])]"





section \<open>What a processed tool call amounts to\<close>


fun py_key :: "pyval \<Rightarrow> pyval" where
  "py_key (PBool b) = PInt (if b then 1 else 0)"
| "py_key v = v"








section \<open>The crew and its scheduler\<close>

text \<open>
  Modelled from the spec: the agent node and the crew (\<^verbatim>\<open>multiagent_pattern/agent.py\<close> and
  \<^verbatim>\<open>multiagent_pattern/crew.py\<close>) are not among the sources; \<^verbatim>\<open>test_multiagent.py\<close> only
  uses them. A node has the attributes of the specification's data model; its
  dependencies and dependents are the ids of other nodes; its context holds the outputs
  of its dependencies, each with the name of the node that produced it. A crew holds
  its nodes in the order of their creation.
\<close>

record 'w agent_node =
  node_id :: nat
  node_name :: string
  backstory :: string
  task_description :: string
  expected_output_description :: string
  node_tools :: "'w Tool list"
  dependencies :: "nat list"
  dependents :: "nat list"
  node_context :: "(string \<times> string) list"
  node_output :: "string option"

record 'w Crew =
  nodes :: "'w agent_node list"

text \<open>
  Modelled from the spec: \<^verbatim>\<open>Agent.run\<close> is not among the sources. The task prompt is the
  task description, the expected output and, if there is context, the outputs of the
  dependencies labelled by their producers; the ReAct loop is run with it, the backstory
  as system prompt and the node's tools. The run is recorded in the trace.
\<close>

definition agent_node_prompt :: "'w agent_node \<Rightarrow> string" where
  "agent_node_prompt node =
     task_description node @ expected_output_description node @
     concat (map (\<lambda>(producer, out). producer @ '': '' @ out) (node_context node))"

definition agent_node_run :: "'w env \<Rightarrow> 'w agent_node \<Rightarrow> 'w st \<Rightarrow> (error + string) \<times> 'w st" where
  "agent_node_run env node s =
     (case ReactAgent_run env
             \<lparr>model = ''deepseek-chat'', system_prompt = backstory node, tools = node_tools node,
              tools_dict = fold (\<lambda>tool d. d(name tool \<mapsto> tool)) (node_tools node) Map.empty\<rparr>
             (agent_node_prompt node) 10 (fst s, snd s @ [NodeRun (node_id node)]) of
        (r, agent', s') \<Rightarrow> (r, s'))"

text \<open>
  Modelled from the spec: the graph the scheduler builds from the dependencies of every
  node, an edge leading from a node to each node it depends on.
\<close>

type_synonym graph = "(nat \<times> nat list) list"

definition build_graph :: "'w Crew \<Rightarrow> graph" where
  "build_graph crew = map (\<lambda>node. (node_id node, dependencies node)) (nodes crew)"

definition successors :: "graph \<Rightarrow> nat \<Rightarrow> nat list" where
  "successors g v = (case map_of g v of None \<Rightarrow> [] | Some ds \<Rightarrow> ds)"

definition edges :: "graph \<Rightarrow> (nat \<times> nat) set" where
  "edges g = {(v, d). d \<in> set (successors g v)}"

definition cyclic :: "graph \<Rightarrow> bool" where
  "cyclic g \<longleftrightarrow> (\<exists>v. (v, v) \<in> (edges g)\<^sup>+)"

text \<open>
  Modelled from the spec: the cycle detection of the scheduler, a depth-first traversal
  with three colours; meeting a node that is in progress is a back edge and signals a
  cycle. The traversal descends at most \<open>depth\<close> levels; the scheduler allows one level
  more than there are nodes.
\<close>

datatype colour = Unvisited | InProgress | Done

datatype marking = Cycle | Exhausted | Marked "nat \<Rightarrow> colour"

fun visit :: "graph \<Rightarrow> nat \<Rightarrow> (nat \<Rightarrow> colour) \<Rightarrow> nat \<Rightarrow> marking"
  and visit_all :: "graph \<Rightarrow> nat \<Rightarrow> (nat \<Rightarrow> colour) \<Rightarrow> nat list \<Rightarrow> marking" where
  "visit g depth col v =
     (case col v of
        InProgress \<Rightarrow> Cycle
      | Done \<Rightarrow> Marked col
      | Unvisited \<Rightarrow>
          (case depth of
             0 \<Rightarrow> Exhausted
           | Suc depth' \<Rightarrow>
               (case visit_all g depth' (col(v := InProgress)) (successors g v) of
                  Marked col' \<Rightarrow> Marked (col'(v := Done))
                | failed \<Rightarrow> failed)))"
| "visit_all g depth col [] = Marked col"
| "visit_all g depth col (v # vs) =
     (case visit g depth col v of
        Marked col' \<Rightarrow> visit_all g depth col' vs
      | failed \<Rightarrow> failed)"

definition detect_cycles :: "graph \<Rightarrow> marking" where
  "detect_cycles g = visit_all g (Suc (length g)) (\<lambda>v. Unvisited) (map fst g)"

text \<open>
  A marking is sound when every dependency of a done node is done and no done node
  lies on a cycle.
\<close>

definition sound_marking :: "graph \<Rightarrow> (nat \<Rightarrow> colour) \<Rightarrow> bool" where
  "sound_marking g col \<longleftrightarrow>
     (\<forall>u w. col u = Done \<longrightarrow> w \<in> set (successors g u) \<longrightarrow> col w = Done)
     \<and> (\<forall>u. col u = Done \<longrightarrow> (u, u) \<notin> (edges g)\<^sup>+)"

text \<open>
  Modelled from the spec: the execution order of the scheduler. Of the nodes that have
  not run and whose dependencies have all run, the one created first is next.
\<close>

definition next_ready :: "graph \<Rightarrow> nat list \<Rightarrow> nat option" where
  "next_ready g finished =
     map_option fst
       (find (\<lambda>(v, ds). v \<notin> set finished \<and> list_all (\<lambda>d. d \<in> set finished) ds) g)"

fun topological_order :: "nat \<Rightarrow> graph \<Rightarrow> nat list \<Rightarrow> nat list" where
  "topological_order 0 g finished = finished"
| "topological_order (Suc n) g finished =
     (case next_ready g finished of
        None \<Rightarrow> finished
      | Some v \<Rightarrow> topological_order n g (finished @ [v]))"

text \<open>
  Modelled from the spec: the execution protocol of \<^verbatim>\<open>Crew.run\<close>, which closing the scope
  invokes. A cycle aborts it with \<^verbatim>\<open>CyclicDependencyError\<close> before any node runs.
  Otherwise the nodes run one at a time in the execution order; the output of each is
  stored, handed to the context of its dependents and entered in the result mapping
  under the node's name; a failing node ends the run with its failure. A traversal
  that used up its depth would end the run as a recursion error; by
  \<open>detect_cycles_not_exhausted\<close> below it never does.
\<close>

definition propagate :: "'w Crew \<Rightarrow> 'w agent_node \<Rightarrow> string \<Rightarrow> 'w Crew" where
  "propagate crew node out =
     crew\<lparr>nodes :=
       map (\<lambda>other.
              if node_id other = node_id node then other\<lparr>node_output := Some out\<rparr>
              else if node_id other \<in> set (dependents node)
              then other\<lparr>node_context := node_context other @ [(node_name node, out)]\<rparr>
              else other)
           (nodes crew)\<rparr>"

fun execute ::
  "'w env \<Rightarrow> nat list \<Rightarrow> 'w Crew \<Rightarrow> (string \<rightharpoonup> string) \<Rightarrow> 'w st
     \<Rightarrow> (error + (string \<rightharpoonup> string)) \<times> 'w Crew \<times> 'w st" where
  "execute env [] crew results s = (Inr results, crew, s)"
| "execute env (v # order) crew results s =
     (case find (\<lambda>node. node_id node = v) (nodes crew) of
        None \<Rightarrow> execute env order crew results s
      | Some node \<Rightarrow>
          (case agent_node_run env node s of
             (Inl e, s') \<Rightarrow> (Inl e, crew, s')
           | (Inr out, s') \<Rightarrow>
               execute env order (propagate crew node out) (results(node_name node \<mapsto> out)) s'))"

definition crew_run ::
  "'w env \<Rightarrow> 'w Crew \<Rightarrow> 'w st \<Rightarrow> (error + (string \<rightharpoonup> string)) \<times> 'w Crew \<times> 'w st" where
  "crew_run env crew s =
     (let g = build_graph crew in
      case detect_cycles g of
        Cycle \<Rightarrow> (Inl CyclicDependencyError, crew, s)
      | Exhausted \<Rightarrow> (Inl (Raised ''RecursionError''), crew, s)
      | Marked col \<Rightarrow> execute env (topological_order (length g) g []) crew Map.empty s)"

text \<open>Two nodes that depend on each other, and the same two in a chain.\<close>

definition poet_node :: "nat agent_node" where
  "poet_node =
     \<lparr>node_id = 0, node_name = ''A'', backstory = ''You are a poet.'',
      task_description = ''Write a poem'', expected_output_description = ''Just the poem'',
      node_tools = [], dependencies = [1], dependents = [1], node_context = [], node_output = None\<rparr>"

definition translator_node :: "nat agent_node" where
  "translator_node =
     \<lparr>node_id = 1, node_name = ''B'', backstory = ''You are a translator.'',
      task_description = ''Translate the poem'', expected_output_description = ''Just the translation'',
      node_tools = [], dependencies = [0], dependents = [0], node_context = [], node_output = None\<rparr>"

definition cyclic_crew :: "nat Crew" where
  "cyclic_crew = \<lparr>nodes = [poet_node, translator_node]\<rparr>"

definition chain_crew :: "nat Crew" where
  "chain_crew =
     \<lparr>nodes = [poet_node\<lparr>dependencies := []\<rparr>, translator_node\<lparr>dependents := []\<rparr>]\<rparr>"


section \<open>The reflection loop stops at the first approving critique\<close>

text \<open>
  C3. When the first critique contains the stop marker \<^verbatim>\<open><OK>\<close>, \<^verbatim>\<open>ReflectionAgent.run\<close>
  returns the first draft after exactly one generation request and one reflection
  request, and the critique is in neither the generation history nor the result. A
  first critique exists when the loop runs at least once and both requests succeed.
\<close>

theorem reflection_stops_on_first_ok:
  fixes env :: "'w env"
  defines "gen0 \<equiv> \<lambda>gsp user_msg.
             [build_prompt_structure (gsp @ BASE_GENERATION_SYSTEM_PROMPT) ''system'' [],
              build_prompt_structure user_msg ''user'' []]"
      and "ref1 \<equiv> \<lambda>rsp draft.
             [build_prompt_structure (rsp @ BASE_REFLECTION_SYSTEM_PROMPT) ''system'' [],
              build_prompt_structure draft ''user'' []]"
  assumes steps: "0 < n_steps"
    and gen: "completions_create env (gen0 gsp user_msg) (ReflectionAgent.model self) w = (Inr draft, w1)"
    and crit: "completions_create env (ref1 rsp draft) (ReflectionAgent.model self) w1 = (Inr critique, w2)"
    and ok: "str_contains ''<OK>'' critique"
  shows "ReflectionAgent_run_locals env self user_msg gsp rsp n_steps (w, tr) =
           (Inr draft,
            \<lparr>generation_history =
               \<lparr>messages = gen0 gsp user_msg @ [build_prompt_structure draft ''assistant'' []],
                total_length = 3\<rparr>,
             reflection_history = \<lparr>messages = ref1 rsp draft, total_length = 3\<rparr>,
             generation = Some draft\<rparr>,
            (w2, tr @ [Completion (gen0 gsp user_msg), Completion (ref1 rsp draft)]))
       \<and> ReflectionAgent_run env self user_msg gsp rsp n_steps (w, tr) =
           (Inr draft, (w2, tr @ [Completion (gen0 gsp user_msg), Completion (ref1 rsp draft)]))"
proof -
  from steps obtain k where k: "nat n_steps = Suc k"
    by (cases "nat n_steps") auto
  have "ReflectionAgent_run_locals env self user_msg gsp rsp n_steps (w, tr) =
           (Inr draft,
            \<lparr>generation_history =
               \<lparr>messages = gen0 gsp user_msg @ [build_prompt_structure draft ''assistant'' []],
                total_length = 3\<rparr>,
             reflection_history = \<lparr>messages = ref1 rsp draft, total_length = 3\<rparr>,
             generation = Some draft\<rparr>,
            (w2, tr @ [Completion (gen0 gsp user_msg), Completion (ref1 rsp draft)]))"
    unfolding ReflectionAgent_run_locals_def k
    using gen crit ok
    by (simp add: gen0_def ref1_def reflection_initial_def generate_def reflect_def
          request_completion_def update_fixed_history_def fixed_first_append_def)
  then show ?thesis
    by (simp add: ReflectionAgent_run_def)
qed

theorem reflection_stops_on_first_ok_witness:
  "ReflectionAgent_run (stub_env (Some ''key'') [''draft one'', ''All good. <OK>'', ''draft two''] [])
      \<lparr>ReflectionAgent.model = ''deepseek-chat''\<rparr> ''Write a haiku'' [] [] 10 (0, []) =
     (Inr ''draft one'',
      (2, [Completion [build_prompt_structure BASE_GENERATION_SYSTEM_PROMPT ''system'' [],
                       build_prompt_structure ''Write a haiku'' ''user'' []],
           Completion [build_prompt_structure BASE_REFLECTION_SYSTEM_PROMPT ''system'' [],
                       build_prompt_structure ''draft one'' ''user'' []]]))"
  using reflection_stops_on_first_ok
          [of 10 "stub_env (Some ''key'') [''draft one'', ''All good. <OK>'', ''draft two''] []"
              "[]" "''Write a haiku''" "\<lparr>ReflectionAgent.model = ''deepseek-chat''\<rparr>" 0
              "''draft one''" 1 "[]" "''All good. <OK>''" 2 "[]"]
  by (simp add: stub_env_def stub_client_def)


section \<open>What the agents leave in the trace\<close>

lemma completion_count_append [simp]:
  "completion_count (xs @ ys) = completion_count xs + completion_count ys"
  by (simp add: completion_count_def)

lemma completion_count_simps [simp]:
  "completion_count [] = 0"
  "completion_count (Completion h # tr) = Suc (completion_count tr)"
  "completion_count (ToolRun n a x # tr) = completion_count tr"
  "completion_count (NodeRun v # tr) = completion_count tr"
  by (simp_all add: completion_count_def)

lemma request_completion_trace:
  "request_completion env h m s = (r, s') \<Longrightarrow> snd s' = snd s @ [Completion h]"
  by (auto simp: request_completion_def split: prod.splits)

lemma tool_run_trace:
  "tool_run tool args s = (r, s') \<Longrightarrow>
     snd s' = snd s \<or> snd s' = snd s @ [ToolRun (name tool) args r]"
  by (auto simp: tool_run_def split: pyval.splits if_splits prod.splits)

lemma process_tool_call_cases:
  "process_tool_call env self obs c s = (r, s') \<Longrightarrow>
     s' = s \<or> (\<exists>tool args res. tool_run tool args s = (res, s'))"
  unfolding process_tool_call_def
  by (simp split: sum.splits prod.splits) blast+

lemma process_tool_call_trace:
  assumes "process_tool_call env self obs c s = (r, s')"
  shows "\<exists>evs. snd s' = snd s @ evs \<and> completion_count evs = 0"
proof -
  from process_tool_call_cases [OF assms] show ?thesis
  proof
    assume "s' = s"
    then have "snd s' = snd s @ [] \<and> completion_count [] = 0" by simp
    then show ?thesis by blast
  next
    assume "\<exists>tool args res. tool_run tool args s = (res, s')"
    then obtain tool args res where "tool_run tool args s = (res, s')" by blast
    from tool_run_trace [OF this] show ?thesis
    proof
      assume "snd s' = snd s"
      then have "snd s' = snd s @ [] \<and> completion_count [] = 0" by simp
      then show ?thesis by blast
    next
      assume "snd s' = snd s @ [ToolRun (name tool) args res]"
      then have "snd s' = snd s @ [ToolRun (name tool) args res]
                 \<and> completion_count [ToolRun (name tool) args res] = 0" by simp
      then show ?thesis by blast
    qed
  qed
qed

lemma process_tool_calls_from_trace:
  "process_tool_calls_from env self obs cs s = (r, s') \<Longrightarrow>
     \<exists>evs. snd s' = snd s @ evs \<and> completion_count evs = 0"
proof (induction cs arbitrary: obs s)
  case Nil
  then show ?case by simp
next
  case (Cons c cs)
  obtain r1 s1 where step: "process_tool_call env self obs c s = (r1, s1)"
    by (cases "process_tool_call env self obs c s")
  from process_tool_call_trace [OF step] obtain evs1
    where evs1: "snd s1 = snd s @ evs1" "completion_count evs1 = 0" by blast
  show ?case
  proof (cases r1)
    case (Inl e)
    with Cons.prems step have "s' = s1" by simp
    with evs1 show ?thesis by blast
  next
    case (Inr obs1)
    with Cons.prems step have "process_tool_calls_from env self obs1 cs s1 = (r, s')" by simp
    from Cons.IH [OF this] obtain evs2
      where "snd s' = snd s1 @ evs2" "completion_count evs2 = 0" by blast
    with evs1 have "snd s' = snd s @ (evs1 @ evs2) \<and> completion_count (evs1 @ evs2) = 0"
      by simp
    then show ?thesis by blast
  qed
qed

lemma process_tool_calls_trace:
  "process_tool_calls env self cs s = (r, s') \<Longrightarrow>
     \<exists>evs. snd s' = snd s @ evs \<and> completion_count evs = 0"
  unfolding process_tool_calls_def by (rule process_tool_calls_from_trace)

text \<open>One round of the loop, as the source writes it.\<close>

lemma react_loop_Suc_cases:
  assumes "react_loop env self (Suc n) h s = (r, h', s')"
  obtains
    (failed) e where "request_completion env h (ReactAgent.model self) s = (Inl e, s')"
      "r = Inl e"
  | (responded) c where "request_completion env h (ReactAgent.model self) s = (Inr c, s')"
      "found (extract_tag_content c ''response'')" "r \<noteq> Inr None"
  | (no_thought) c where "request_completion env h (ReactAgent.model self) s = (Inr c, s')"
      "\<not> found (extract_tag_content c ''response'')" "r = Inl IndexError"
  | (tools_failed) c s1 e where "request_completion env h (ReactAgent.model self) s = (Inr c, s1)"
      "process_tool_calls env self (content (extract_tag_content c ''tool_call'')) s1 = (Inl e, s')"
      "r = Inl e"
  | (observed) c s1 obs s2 where "request_completion env h (ReactAgent.model self) s = (Inr c, s1)"
      "\<not> found (extract_tag_content c ''response'')"
      "content (extract_tag_content c ''thought'') \<noteq> []"
      "found (extract_tag_content c ''tool_call'')"
      "process_tool_calls env self (content (extract_tag_content c ''tool_call'')) s1 = (Inr obs, s2)"
      "react_loop env self n
         (update_chat_history (update_chat_history h c ''assistant'') (py_str (PDict obs)) ''user'') s2
       = (r, h', s')"
  | (wasted) c s1 where "request_completion env h (ReactAgent.model self) s = (Inr c, s1)"
      "\<not> found (extract_tag_content c ''response'')"
      "content (extract_tag_content c ''thought'') \<noteq> []"
      "\<not> found (extract_tag_content c ''tool_call'')"
      "react_loop env self n (update_chat_history h c ''assistant'') s1 = (r, h', s')"
  using assms
  by (auto simp: Let_def first_def split: prod.splits sum.splits if_splits list.splits)

text \<open>A round that is passed hands the rest of the budget to the next one.\<close>

lemma react_loop_observed:
  assumes "request_completion env h (ReactAgent.model self) s = (Inr c, s1)"
    and "\<not> found (extract_tag_content c ''response'')"
    and "content (extract_tag_content c ''thought'') \<noteq> []"
    and "found (extract_tag_content c ''tool_call'')"
    and "process_tool_calls env self (content (extract_tag_content c ''tool_call'')) s1 = (Inr obs, s2)"
  shows "react_loop env self (Suc n) h s =
           react_loop env self n
             (update_chat_history (update_chat_history h c ''assistant'') (py_str (PDict obs)) ''user'') s2"
  using assms by (simp add: Let_def first_def split: list.splits)

lemma react_loop_wasted:
  assumes "request_completion env h (ReactAgent.model self) s = (Inr c, s1)"
    and "\<not> found (extract_tag_content c ''response'')"
    and "content (extract_tag_content c ''thought'') \<noteq> []"
    and "\<not> found (extract_tag_content c ''tool_call'')"
  shows "react_loop env self (Suc n) h s =
           react_loop env self n (update_chat_history h c ''assistant'') s1"
  using assms by (simp add: Let_def first_def split: list.splits)

lemma react_loop_add:
  "react_loop env self j h s = (Inr None, hj, sj) \<Longrightarrow>
     react_loop env self (j + m) h s = react_loop env self m hj sj"
proof (induction j arbitrary: h s)
  case 0
  then show ?case by simp
next
  case (Suc j)
  from Suc.prems show ?case
  proof (cases rule: react_loop_Suc_cases)
    case (observed c s1 obs s2)
    from react_loop_observed [OF observed(1-5), of "j + m"] Suc.IH [OF observed(6)]
    show ?thesis by simp
  next
    case (wasted c s1)
    from react_loop_wasted [OF wasted(1-4), of "j + m"] Suc.IH [OF wasted(5)]
    show ?thesis by simp
  qed simp_all
qed

lemma react_loop_exhausted_count:
  "react_loop env self n h s = (Inr None, h', s') \<Longrightarrow>
     completion_count (snd s') = completion_count (snd s) + n"
proof (induction n arbitrary: h s)
  case 0
  then show ?case by simp
next
  case (Suc n)
  from Suc.prems show ?case
  proof (cases rule: react_loop_Suc_cases)
    case (failed e)
    then show ?thesis by simp
  next
    case (responded c)
    then show ?thesis by simp
  next
    case (no_thought c)
    then show ?thesis by simp
  next
    case (tools_failed c s1 e)
    then show ?thesis by simp
  next
    case (observed c s1 obs s2)
    from process_tool_calls_trace [OF observed(5)] request_completion_trace [OF observed(1)]
      Suc.IH [OF observed(6)]
    show ?thesis by auto
  next
    case (wasted c s1)
    from request_completion_trace [OF wasted(1)] Suc.IH [OF wasted(5)]
    show ?thesis by auto
  qed
qed




lemmas stub_simps = two_step_env_def stub_env_def stub_client_def stub_agent_def
  request_completion_def extract_tag_content_def first_def update_chat_history_def Let_def


section \<open>Construction without a credential\<close>

text \<open>
  C8. When \<^verbatim>\<open>DEEPSEEK_API_KEY\<close> is absent from the environment, the constructors of
  \<^verbatim>\<open>ReactAgent\<close> and of \<^verbatim>\<open>ReflectionAgent\<close> raise \<^verbatim>\<open>ValueError\<close>, a configuration
  error, and a script that builds an agent and runs it ends there: the state of the
  world and the trace are as before, so no completion was requested and no tool run.
\<close>

theorem missing_credential_constructors_raise:
  assumes "getenv env ''DEEPSEEK_API_KEY'' = None"
  shows "ReactAgent_init env tls mdl sysprompt = Inl (ValueError API_KEY_REQUIRED)
       \<and> ReflectionAgent_init env mdl' = Inl (ValueError API_KEY_REQUIRED)
       \<and> react_script env tls user_msg max_rounds s = (Inl (ValueError API_KEY_REQUIRED), s)
       \<and> reflection_script env user_msg' gsp rsp n_steps s = (Inl (ValueError API_KEY_REQUIRED), s)"
  using assms
  by (simp add: ReactAgent_init_def ReflectionAgent_init_def react_script_def reflection_script_def)

theorem missing_credential_constructors_raise_witness:
  "react_script (stub_env None [''<response>hello</response>''] []) [sum_two_elements] ''hi'' 10 (0, [])
     = (Inl (ValueError API_KEY_REQUIRED), (0, []))
   \<and> reflection_script (stub_env None [''draft'', ''<OK>''] []) ''hi'' [] [] 10 (0, [])
     = (Inl (ValueError API_KEY_REQUIRED), (0, []))"
  using missing_credential_constructors_raise
          [of "stub_env None [''<response>hello</response>''] []" "[sum_two_elements]"
              "''deepseek-chat''" BASE_SYSTEM_PROMPT "''deepseek-chat''" "''hi''" 10 "(0, [])"]
        missing_credential_constructors_raise
          [of "stub_env None [''draft'', ''<OK>''] []" "[]"
              "''deepseek-chat''" BASE_SYSTEM_PROMPT "''deepseek-chat''" "''hi''" 10 "(0, [])" "''hi''" "[]" "[]" 10]
  by (simp add: stub_env_def)


section \<open>An agent without tools\<close>

text \<open>
  C7. With an empty tool set, \<^verbatim>\<open>ReactAgent.run\<close> requests exactly one completion, over
  the buffer seeded with the system prompt as it is and the question in its tag, and
  returns what that request gives; the agent is unchanged, the buffer receives no
  further turn, and no tool is run.
\<close>

theorem no_tools_single_completion:
  fixes env :: "'w env"
  defines "seed \<equiv> \<lambda>self user_msg.
             [build_prompt_structure (system_prompt self) ''system'' [],
              build_prompt_structure user_msg ''user'' ''question'']"
  assumes "tools self = []"
    and "completions_create env (seed self user_msg) (ReactAgent.model self) w = (r, w')"
  shows "ReactAgent_run_locals env self user_msg max_rounds (w, tr) =
           (r, self, seed self user_msg, (w', tr @ [Completion (seed self user_msg)]))
       \<and> ReactAgent_run env self user_msg max_rounds (w, tr) =
           (r, self, (w', tr @ [Completion (seed self user_msg)]))"
  using assms
  by (simp add: ReactAgent_run_def ReactAgent_run_locals_def ReactAgent_seed_def Let_def
        request_completion_def)

theorem no_tools_single_completion_witness:
  "ReactAgent_run (stub_env (Some ''key'') [''<thought>t</thought>'', ''second''] [])
      \<lparr>ReactAgent.model = ''deepseek-chat'', system_prompt = ''Be brief.'', tools = [],
       tools_dict = Map.empty\<rparr> ''What is 2 + 2?'' 10 (0, []) =
     (Inr ''<thought>t</thought>'',
      \<lparr>ReactAgent.model = ''deepseek-chat'', system_prompt = ''Be brief.'', tools = [],
       tools_dict = Map.empty\<rparr>,
      (1, [Completion [\<lparr>role = ''system'', msg_content = ''Be brief.''\<rparr>,
                       \<lparr>role = ''user'', msg_content = ''<question>What is 2 + 2?</question>''\<rparr>]]))"
  using no_tools_single_completion
          [of "\<lparr>ReactAgent.model = ''deepseek-chat'', system_prompt = ''Be brief.'', tools = [],
                tools_dict = Map.empty\<rparr>"
              "stub_env (Some ''key'') [''<thought>t</thought>'', ''second''] []"
              "''What is 2 + 2?''" 0 "Inr ''<thought>t</thought>''" 1 10 "[]"]
  by (simp add: stub_env_def stub_client_def build_prompt_structure_def)


section \<open>A round without a thought\<close>

text \<open>
  C9. In an agent with tools, a round whose completion has neither a \<^verbatim>\<open><response>\<close> tag
  nor a well-formed \<^verbatim>\<open><thought>\<close> tag raises \<^verbatim>\<open>IndexError\<close>, and so does \<^verbatim>\<open>run\<close>: the
  round is not treated as wasted. The round may be any round of the budget: \<open>j\<close>
  rounds have passed before it.
\<close>

theorem missing_thought_raises_index_error:
  assumes tls: "tools self \<noteq> []"
    and seed: "ReactAgent_seed self user_msg = (self', seed)"
    and budget: "nat max_rounds = j + Suc n"
    and passed: "react_loop env self' j seed s = (Inr None, hj, sj)"
    and req: "request_completion env hj (ReactAgent.model self') sj = (Inr completion, t)"
    and no_response: "\<not> found (extract_tag_content completion ''response'')"
    and no_thought: "\<not> found (extract_tag_content completion ''thought'')"
  shows "react_loop env self' (Suc n) hj sj =
           (Inl IndexError, update_chat_history hj completion ''assistant'', t)
       \<and> ReactAgent_run env self user_msg max_rounds s = (Inl IndexError, self', t)"
proof -
  have round: "react_loop env self' (Suc n) hj sj =
           (Inl IndexError, update_chat_history hj completion ''assistant'', t)"
    using req no_response no_thought
    by (simp add: Let_def first_def extract_tag_content_def)
  from react_loop_add [OF passed, of "Suc n"] round budget
  have "react_loop env self' (nat max_rounds) seed s =
           (Inl IndexError, update_chat_history hj completion ''assistant'', t)"
    by simp
  moreover from seed tls have "tools self' \<noteq> []"
    by (auto simp: ReactAgent_seed_def Let_def)
  ultimately have "ReactAgent_run env self user_msg max_rounds s = (Inl IndexError, self', t)"
    using seed by (simp add: ReactAgent_run_def ReactAgent_run_locals_def)
  with round show ?thesis by blast
qed

theorem missing_thought_raises_index_error_witness:
  "ReactAgent_run chatting_env stub_agent ''q'' 5 (0, []) =
     (Inl IndexError, fst (ReactAgent_seed stub_agent ''q''),
      (2, [Completion (snd (ReactAgent_seed stub_agent ''q'')),
           Completion (snd (ReactAgent_seed stub_agent ''q'') @
                       [\<lparr>role = ''assistant'', msg_content = ''<thought>a</thought>''\<rparr>])]))"
  using missing_thought_raises_index_error
          [where self = stub_agent and user_msg = "''q''" and env = chatting_env
             and self' = "fst (ReactAgent_seed stub_agent ''q'')"
             and seed = "snd (ReactAgent_seed stub_agent ''q'')"
             and max_rounds = 5 and j = 1 and n = 3 and s = "(0, [])"
             and hj = "snd (ReactAgent_seed stub_agent ''q'') @
                       [\<lparr>role = ''assistant'', msg_content = ''<thought>a</thought>''\<rparr>]"
             and sj = "(1, [Completion (snd (ReactAgent_seed stub_agent ''q''))])"
             and completion = "''just chatting''"
             and t = "(2, [Completion (snd (ReactAgent_seed stub_agent ''q'')),
                           Completion (snd (ReactAgent_seed stub_agent ''q'') @
                       [\<lparr>role = ''assistant'', msg_content = ''<thought>a</thought>''\<rparr>])])"]
  by (simp add: ReactAgent_seed_def chatting_env_def stub_env_def stub_client_def stub_agent_def
        request_completion_def extract_tag_content_def first_def update_chat_history_def Let_def
        build_prompt_structure_def)


section \<open>The system prompt grows with every run\<close>




section \<open>The round budget used up\<close>

text \<open>
  C1, as the specification states it, fails: with a budget of one round and a model
  that never emits \<^verbatim>\<open><response>\<close>, \<^verbatim>\<open>run\<close> requests a second completion and returns that
  one, not the completion of the round.
\<close>

theorem budget_of_one_counterexample:
  "fst (ReactAgent_run two_step_env stub_agent ''q'' 1 (0, [])) = Inr ''second answer''
   \<and> fst (ReactAgent_run two_step_env stub_agent ''q'' 1 (0, [])) \<noteq> Inr ''<thought>hm</thought>''
   \<and> completion_count (snd (snd (snd (ReactAgent_run two_step_env stub_agent ''q'' 1 (0, []))))) = 2"
  by (simp add: ReactAgent_run_def ReactAgent_run_locals_def ReactAgent_seed_def stub_simps)

text \<open>
  C1, amended. When an agent with tools has passed all \<open>max_rounds\<close> rounds without a
  \<^verbatim>\<open><response>\<close> tag and without an exception, \<^verbatim>\<open>run\<close> requests one more completion
  over the buffer the loop has left and returns its result as it is: \<open>max_rounds + 1\<close>
  requests in all.
\<close>

theorem exhausted_rounds_request_one_more_completion:
  assumes tls: "tools self \<noteq> []"
    and seed: "ReactAgent_seed self user_msg = (self', seed)"
    and loop: "react_loop env self' (nat max_rounds) seed s = (Inr None, h', s')"
    and final: "request_completion env h' (ReactAgent.model self') s' = (r, s'')"
  shows "ReactAgent_run env self user_msg max_rounds s = (r, self', s'')
       \<and> snd s'' = snd s' @ [Completion h']
       \<and> completion_count (snd s'') = completion_count (snd s) + nat max_rounds + 1"
proof -
  from seed tls have "tools self' \<noteq> []"
    by (auto simp: ReactAgent_seed_def Let_def)
  with seed loop final have "ReactAgent_run env self user_msg max_rounds s = (r, self', s'')"
    by (simp add: ReactAgent_run_def ReactAgent_run_locals_def)
  moreover from request_completion_trace [OF final]
  have "snd s'' = snd s' @ [Completion h']" .
  moreover from this react_loop_exhausted_count [OF loop]
  have "completion_count (snd s'') = completion_count (snd s) + nat max_rounds + 1" by simp
  ultimately show ?thesis by blast
qed

theorem exhausted_rounds_request_one_more_completion_witness:
  "ReactAgent_run two_step_env stub_agent ''q'' 1 (0, []) =
     (Inr ''second answer'', fst (ReactAgent_seed stub_agent ''q''),
      (2, [Completion (snd (ReactAgent_seed stub_agent ''q'')),
           Completion (snd (ReactAgent_seed stub_agent ''q'') @
                       [\<lparr>role = ''assistant'', msg_content = ''<thought>hm</thought>''\<rparr>])]))
   \<and> completion_count
        [Completion (snd (ReactAgent_seed stub_agent ''q'')),
         Completion (snd (ReactAgent_seed stub_agent ''q'') @
                     [\<lparr>role = ''assistant'', msg_content = ''<thought>hm</thought>''\<rparr>])] = 0 + nat 1 + 1"
  using exhausted_rounds_request_one_more_completion
          [where self = stub_agent and user_msg = "''q''" and env = two_step_env
             and self' = "fst (ReactAgent_seed stub_agent ''q'')"
             and seed = "snd (ReactAgent_seed stub_agent ''q'')"
             and max_rounds = 1 and s = "(0, [])"
             and h' = "snd (ReactAgent_seed stub_agent ''q'') @
                       [\<lparr>role = ''assistant'', msg_content = ''<thought>hm</thought>''\<rparr>]"
             and s' = "(1, [Completion (snd (ReactAgent_seed stub_agent ''q''))])"
             and r = "Inr ''second answer''"
             and s'' = "(2, [Completion (snd (ReactAgent_seed stub_agent ''q'')),
                           Completion (snd (ReactAgent_seed stub_agent ''q'') @
                       [\<lparr>role = ''assistant'', msg_content = ''<thought>hm</thought>''\<rparr>])])"]
  by (simp add: ReactAgent_seed_def stub_simps build_prompt_structure_def completion_count_def)


section \<open>A call of an unknown tool\<close>

lemma tools_dict_fold:
  "fold (\<lambda>tool d. d(name tool \<mapsto> tool)) tls m n = None \<longleftrightarrow> m n = None \<and> n \<notin> name ` set tls"
  by (induction tls arbitrary: m) auto

lemma init_tools_dict:
  "ReactAgent_init env tls mdl sp = Inr agent \<Longrightarrow>
     tools agent = tls \<and> (tools_dict agent n = None \<longleftrightarrow> n \<notin> name ` set tls)"
  by (auto simp: ReactAgent_init_def tools_dict_fold split: option.splits if_splits)

lemma process_tool_calls_from_append:
  "process_tool_calls_from env self obs pre s = (Inr obs', s') \<Longrightarrow>
     process_tool_calls_from env self obs (pre @ rest) s =
     process_tool_calls_from env self obs' rest s'"
  by (induction pre arbitrary: obs s) (auto split: prod.splits sum.splits)

lemma seed_keeps_tools:
  "ReactAgent_seed self user_msg = (self', seed) \<Longrightarrow>
     tools self' = tools self \<and> tools_dict self' = tools_dict self"
  by (auto simp: ReactAgent_seed_def Let_def)

text \<open>
  C5, as the specification states it, fails: a call that names a tool the agent does
  not have raises Python's \<^verbatim>\<open>KeyError\<close>, not an \<^verbatim>\<open>UnknownToolError\<close>, and the
  exception leaves \<^verbatim>\<open>run\<close>.
\<close>

theorem unknown_tool_counterexample:
  "fst (ReactAgent_run unknown_tool_env stub_agent ''q'' 10 (0, [])) = Inl (KeyError (PStr ''divide''))
   \<and> fst (ReactAgent_run unknown_tool_env stub_agent ''q'' 10 (0, [])) \<noteq> Inl (UnknownToolError ''divide'')"
  by (simp add: ReactAgent_run_def ReactAgent_run_locals_def ReactAgent_seed_def unknown_tool_env_def
        stub_env_def stub_client_def stub_agent_def request_completion_def extract_tag_content_def
        first_def update_chat_history_def Let_def eval_nat_numeral divide_call_def
        process_tool_calls_def process_tool_call_def)

text \<open>
  C5, amended. When a tool call of a completion names (by a string) a tool that is not
  in the agent's tool set, processing it raises \<^verbatim>\<open>KeyError\<close> with that name: the call
  is not skipped, no tool is run for it or for the calls after it (the state is the
  one the calls before it have left), and the exception leaves \<^verbatim>\<open>run\<close>, which ends
  with it.
\<close>

theorem unknown_tool_raises_key_error:
  assumes init: "ReactAgent_init env tls mdl sp = Inr agent"
    and tls: "tls \<noteq> []"
    and unknown: "n \<notin> name ` set tls"
    and seed: "ReactAgent_seed agent user_msg = (self', seed)"
    and budget: "nat max_rounds = j + Suc k"
    and passed: "react_loop env self' j seed s = (Inr None, hj, sj)"
    and req: "request_completion env hj (ReactAgent.model self') sj = (Inr completion, t)"
    and no_response: "\<not> found (extract_tag_content completion ''response'')"
    and thought: "found (extract_tag_content completion ''thought'')"
    and calls: "content (extract_tag_content completion ''tool_call'') = pre @ call # rest"
    and before: "process_tool_calls env self' pre t = (Inr obs, t')"
    and decoded: "json_loads env call = Inr tool_call"
    and named: "getitem tool_call ''name'' = Inr (PStr n)"
  shows "process_tool_calls env self' (pre @ call # rest) t = (Inl (KeyError (PStr n)), t')
       \<and> ReactAgent_run env agent user_msg max_rounds s = (Inl (KeyError (PStr n)), self', t')"
proof -
  from init_tools_dict [OF init, of n] unknown seed_keeps_tools [OF seed] tls
  have none: "tools_dict self' n = None" and tools: "tools self' \<noteq> []" by auto
  have one: "process_tool_call env self' obs call t' = (Inl (KeyError (PStr n)), t')"
    using decoded named none by (simp add: process_tool_call_def)
  from before have "process_tool_calls_from env self' [] pre t = (Inr obs, t')"
    by (simp add: process_tool_calls_def)
  from process_tool_calls_from_append [OF this, of "call # rest"] one
  have all: "process_tool_calls env self' (pre @ call # rest) t = (Inl (KeyError (PStr n)), t')"
    by (simp add: process_tool_calls_def)
  from thought have "content (extract_tag_content completion ''thought'') \<noteq> []"
    by (simp add: extract_tag_content_def Let_def)
  moreover from calls have "found (extract_tag_content completion ''tool_call'')"
    by (simp add: extract_tag_content_def Let_def)
  ultimately have "react_loop env self' (Suc k) hj sj =
      (Inl (KeyError (PStr n)), update_chat_history hj completion ''assistant'', t')"
    using req no_response all calls
    by (simp add: Let_def first_def split: list.splits)
  with react_loop_add [OF passed, of "Suc k"] budget
  have "react_loop env self' (nat max_rounds) seed s =
      (Inl (KeyError (PStr n)), update_chat_history hj completion ''assistant'', t')"
    by simp
  with seed tools have "ReactAgent_run env agent user_msg max_rounds s = (Inl (KeyError (PStr n)), self', t')"
    by (simp add: ReactAgent_run_def ReactAgent_run_locals_def)
  with all show ?thesis by blast
qed

theorem unknown_tool_raises_key_error_witness:
  "ReactAgent_init unknown_tool_env [sum_two_elements] ''deepseek-chat'' BASE_SYSTEM_PROMPT = Inr stub_agent
   \<and> ReactAgent_run unknown_tool_env stub_agent ''q'' 10 (0, []) =
     (Inl (KeyError (PStr ''divide'')), fst (ReactAgent_seed stub_agent ''q''),
      (1, [Completion (snd (ReactAgent_seed stub_agent ''q''))]))"
  using unknown_tool_raises_key_error
          [where env = unknown_tool_env and tls = "[sum_two_elements]" and mdl = "''deepseek-chat''"
             and sp = BASE_SYSTEM_PROMPT and agent = stub_agent and n = "''divide''"
             and user_msg = "''q''" and self' = "fst (ReactAgent_seed stub_agent ''q'')"
             and seed = "snd (ReactAgent_seed stub_agent ''q'')"
             and max_rounds = 10 and j = 0 and k = 9 and s = "(0, [])"
             and hj = "snd (ReactAgent_seed stub_agent ''q'')" and sj = "(0, [])"
             and completion = "''<thought>divide them</thought><tool_call>'' @ divide_call @ ''</tool_call>''"
             and t = "(1, [Completion (snd (ReactAgent_seed stub_agent ''q''))])"
             and pre = "[]" and call = divide_call and rest = "[]" and obs = "[]"
             and t' = "(1, [Completion (snd (ReactAgent_seed stub_agent ''q''))])"
             and tool_call = "PDict [(PStr ''name'', PStr ''divide''),
                (PStr ''arguments'', PDict [(PStr ''a'', PInt 1), (PStr ''b'', PInt 2)]),
                (PStr ''id'', PInt 0)]"]
  by (simp add: ReactAgent_init_def ReactAgent_seed_def unknown_tool_env_def
        stub_env_def stub_client_def stub_agent_def request_completion_def extract_tag_content_def
        Let_def divide_call_def process_tool_calls_def sum_two_elements_def)


section \<open>The observation turn\<close>

lemmas run_simps = ReactAgent_run_def ReactAgent_run_locals_def ReactAgent_seed_def
  stub_env_def stub_client_def stub_agent_def request_completion_def extract_tag_content_def
  first_def update_chat_history_def Let_def
  process_tool_calls_def process_tool_call_def tool_run_def sum_two_elements_def setitem_def

text \<open>
  C4, as the specification states it, fails: the observation appended after a call
  with id 0 that returned 6912 is the text \<^verbatim>\<open>{0: 6912}\<close>, whose key is a bare integer;
  the JSON object with the id as a string key is \<^verbatim>\<open>{"0": 6912}\<close>.
\<close>

theorem observation_is_not_json_counterexample:
  "msg_content (last (fst (snd (snd (ReactAgent_run_locals one_call_env stub_agent ''q'' 1 (0, []))))))
     = ''{0: 6912}''
   \<and> msg_content (last (fst (snd (snd (ReactAgent_run_locals one_call_env stub_agent ''q'' 1 (0, []))))))
     \<noteq> observation_json [(PInt 0, PInt 6912)]"
  by (simp add: run_simps one_call_env_def sum_call_def build_prompt_structure_def py_str_def
       int_repr_def decimal.simps observation_json_def json_string_def json_escape_char_def)

text \<open>
  C4, amended. In a round in which tool calls were extracted and processed, the turn
  appended to the conversation as the next user message, after the assistant turn, is
  Python's \<^verbatim>\<open>str\<close> of the observations dict: between braces, for each id in the order
  of first insertion, \<^verbatim>\<open>repr(id): repr(result)\<close>, separated by a comma and a space. The
  rest of the loop runs over that conversation.
\<close>

theorem observation_is_str_of_dict:
  assumes req: "request_completion env chat_history (ReactAgent.model self) s = (Inr completion, t)"
    and no_response: "\<not> found (extract_tag_content completion ''response'')"
    and thought: "found (extract_tag_content completion ''thought'')"
    and calls: "found (extract_tag_content completion ''tool_call'')"
    and processed: "process_tool_calls env self (content (extract_tag_content completion ''tool_call'')) t
                 = (Inr observations, t')"
  shows "react_loop env self (Suc n) chat_history s =
           react_loop env self n
             (chat_history @
              [\<lparr>role = ''assistant'', msg_content = completion\<rparr>,
               \<lparr>role = ''user'',
                msg_content =
                  ''{'' @ join_comma (map (\<lambda>(k, v). py_repr k @ '': '' @ py_repr v) observations) @ ''}''\<rparr>])
             t'"
proof -
  from thought have "content (extract_tag_content completion ''thought'') \<noteq> []"
    by (simp add: extract_tag_content_def Let_def)
  from react_loop_observed [OF req no_response this calls processed, of n]
  show ?thesis
    by (simp add: update_chat_history_def build_prompt_structure_def py_str_def case_prod_unfold
          comp_def)
qed

theorem observation_is_str_of_dict_witness:
  "react_loop one_call_env stub_agent (Suc 0) (snd (ReactAgent_seed stub_agent ''q'')) (0, []) =
     react_loop one_call_env stub_agent 0
       (snd (ReactAgent_seed stub_agent ''q'') @
        [\<lparr>role = ''assistant'',
          msg_content = ''<thought>add them</thought><tool_call>'' @ sum_call @ ''</tool_call>''\<rparr>,
         \<lparr>role = ''user'', msg_content = ''{0: 6912}''\<rparr>])
       (1, [Completion (snd (ReactAgent_seed stub_agent ''q'')),
            ToolRun ''sum_two_elements'' (PDict [(PStr ''a'', PInt 1234), (PStr ''b'', PInt 5678)])
              (Inr (PInt 6912))])"
  using observation_is_str_of_dict
          [where env = one_call_env and self = stub_agent and n = 0
             and chat_history = "snd (ReactAgent_seed stub_agent ''q'')" and s = "(0, [])"
             and completion = "''<thought>add them</thought><tool_call>'' @ sum_call @ ''</tool_call>''"
             and t = "(1, [Completion (snd (ReactAgent_seed stub_agent ''q''))])"
             and observations = "[(PInt 0, PInt 6912)]"
             and t' = "(1, [Completion (snd (ReactAgent_seed stub_agent ''q'')),
                  ToolRun ''sum_two_elements'' (PDict [(PStr ''a'', PInt 1234), (PStr ''b'', PInt 5678)])
                    (Inr (PInt 6912))])"]
  by (simp add: stub_env_def stub_client_def stub_agent_def request_completion_def
        extract_tag_content_def Let_def process_tool_calls_def process_tool_call_def tool_run_def
        sum_two_elements_def setitem_def one_call_env_def sum_call_def int_repr_def decimal.simps)


section \<open>Order and keys of the processed tool calls\<close>

lemma py_eq_py_key: "py_eq a b \<longleftrightarrow> py_key a = py_key b"
  by (cases a; cases b) auto

lemma py_eq_sym: "py_eq a b \<Longrightarrow> py_eq b a"
  by (simp add: py_eq_py_key)

lemma py_eq_trans: "py_eq a b \<Longrightarrow> py_eq b c \<Longrightarrow> py_eq a c"
  by (simp add: py_eq_py_key)











text \<open>
  Tags written one after the other are extracted in the order in which they are
  written, here for the layout the system prompt asks for: a thought, then the calls.
\<close>

lemma scan_skip:
  "scan_tags opn cls cur (length ys) (ys @ rest) = scan_tags opn cls cur 0 rest"
  by (induction ys arbitrary: cur) simp_all

lemma scan_plain:
  assumes "CHR ''<'' \<notin> set x" and "hd opn = CHR ''<''" and "hd cls = CHR ''<''"
    and "opn \<noteq> []" and "cls \<noteq> []"
  shows "scan_tags opn cls cur 0 (x @ rest) =
           scan_tags opn cls (map_option (\<lambda>acc. rev x @ acc) cur) 0 rest"
  using assms(1)
proof (induction x arbitrary: cur)
  case Nil
  then show ?case by (cases cur) simp_all
next
  case (Cons c x)
  from assms(2,4) obtain o' where o: "opn = CHR ''<'' # o'" by (cases opn) auto
  from assms(3,5) obtain c' where c: "cls = CHR ''<'' # c'" by (cases cls) auto
  from Cons.prems have "c \<noteq> CHR ''<''" and x: "CHR ''<'' \<notin> set x" by auto
  then have "scan_tags opn cls cur 0 ((c # x) @ rest) =
               scan_tags opn cls (map_option ((#) c) cur) 0 (x @ rest)"
    by (simp add: o c)
  also from Cons.IH [OF x] have "\<dots> =
      scan_tags opn cls (map_option (\<lambda>acc. rev x @ acc) (map_option ((#) c) cur)) 0 rest" .
  finally show ?case by (simp add: option.map_comp comp_def)
qed

lemma scan_open:
  assumes "opn \<noteq> []"
  shows "scan_tags opn cls cur 0 (opn @ rest) = scan_tags opn cls (Some []) 0 rest"
proof -
  from assms obtain c o' where o: "opn = c # o'" by (cases opn) auto
  have "scan_tags opn cls cur 0 (opn @ rest) = scan_tags opn cls (Some []) (length o') (o' @ rest)"
    by (simp add: o)
  then show ?thesis by (simp add: scan_skip)
qed

lemma scan_close:
  assumes "cls \<noteq> []" and "\<not> prefix opn (cls @ rest)"
  shows "scan_tags opn cls (Some acc) 0 (cls @ rest) = rev acc # scan_tags opn cls None 0 rest"
proof -
  from assms(1) obtain c c' where c: "cls = c # c'" by (cases cls) auto
  from assms(2) have "scan_tags opn cls (Some acc) 0 (cls @ rest) =
      rev acc # scan_tags opn cls None (length c') (c' @ rest)"
    by (simp add: c)
  then show ?thesis by (simp add: scan_skip)
qed

lemma scan_tool_calls_written_in_order:
  assumes "\<forall>call \<in> set calls. CHR ''<'' \<notin> set call" and "CHR ''<'' \<notin> set rest"
  shows "scan_tags ''<tool_call>'' ''</tool_call>'' None 0
           (concat (map (\<lambda>call. ''<tool_call>'' @ call @ ''</tool_call>'') calls) @ rest) = calls"
  using assms(1)
proof (induction calls)
  case Nil
  from scan_plain [OF assms(2), of "''<tool_call>''" "''</tool_call>''" None "[]"]
  show ?case by simp
next
  case (Cons call calls)
  let ?tail = "concat (map (\<lambda>call. ''<tool_call>'' @ call @ ''</tool_call>'') calls) @ rest"
  from Cons.prems have call: "CHR ''<'' \<notin> set call" by simp
  have "scan_tags ''<tool_call>'' ''</tool_call>'' None 0
          (''<tool_call>'' @ call @ ''</tool_call>'' @ ?tail)
        = scan_tags ''<tool_call>'' ''</tool_call>'' (Some []) 0 (call @ ''</tool_call>'' @ ?tail)"
    by (rule scan_open) simp
  also from scan_plain [OF call, of "''<tool_call>''" "''</tool_call>''" "Some []" "''</tool_call>'' @ ?tail"]
  have "\<dots> = scan_tags ''<tool_call>'' ''</tool_call>'' (Some (rev call)) 0 (''</tool_call>'' @ ?tail)"
    by simp
  also have "\<dots> = call # scan_tags ''<tool_call>'' ''</tool_call>'' None 0 ?tail"
    using scan_close [of "''</tool_call>''" "''<tool_call>''" ?tail "rev call"] by simp
  also from Cons.IH Cons.prems have "\<dots> = call # calls" by simp
  finally show ?case by simp
qed

lemma scan_thought_first:
  assumes "CHR ''<'' \<notin> set th"
  shows "scan_tags ''<tool_call>'' ''</tool_call>'' None 0 (''<thought>'' @ th @ ''</thought>'' @ rest)
           = scan_tags ''<tool_call>'' ''</tool_call>'' None 0 rest"
proof -
  have "scan_tags ''<tool_call>'' ''</tool_call>'' None 0 (''<thought>'' @ th @ ''</thought>'' @ rest)
      = scan_tags ''<tool_call>'' ''</tool_call>'' None 0 (th @ ''</thought>'' @ rest)"
    by simp
  also from scan_plain [OF assms, of "''<tool_call>''" "''</tool_call>''" None "''</thought>'' @ rest"]
  have "\<dots> = scan_tags ''<tool_call>'' ''</tool_call>'' None 0 (''</thought>'' @ rest)"
    by simp
  also have "\<dots> = scan_tags ''<tool_call>'' ''</tool_call>'' None 0 rest"
    by simp
  finally show ?thesis .
qed

lemma tool_calls_extracted_in_written_order:
  assumes "CHR ''<'' \<notin> set th" and "\<forall>call \<in> set calls. CHR ''<'' \<notin> set call"
  shows "content (extract_tag_content
           (''<thought>'' @ th @ ''</thought>'' @
            concat (map (\<lambda>call. ''<tool_call>'' @ call @ ''</tool_call>'') calls)) ''tool_call'')
         = calls"
  using scan_thought_first [OF assms(1), of "concat (map (\<lambda>call. ''<tool_call>'' @ call @ ''</tool_call>'') calls)"]
    scan_tool_calls_written_in_order [OF assms(2), of "[]"]
  by (simp add: extract_tag_content_def)




section \<open>Cycle detection\<close>

declare visit.simps [simp del]

lemma visit_Marked_cases:
  assumes "visit g depth col v = Marked col'"
  obtains (finished) "col v = Done" "col' = col"
  | (explored) depth' col'' where "col v = Unvisited" "depth = Suc depth'"
      "visit_all g depth' (col(v := InProgress)) (successors g v) = Marked col''"
      "col' = col''(v := Done)"
  using assms
  by (subst (asm) visit.simps) (auto split: colour.splits nat.splits marking.splits)

lemma visit_all_Cons_Marked:
  assumes "visit_all g depth col (v # vs) = Marked col'"
  obtains col1 where "visit g depth col v = Marked col1" "visit_all g depth col1 vs = Marked col'"
  using assms by (auto split: marking.splits)

text \<open>What a completed traversal changes: only unvisited nodes, all to done.\<close>

lemma visit_keeps:
  "visit g depth col v = Marked col' \<Longrightarrow> col u \<noteq> Unvisited \<Longrightarrow> col' u = col u"
  and visit_all_keeps:
  "visit_all g depth col vs = Marked col' \<Longrightarrow> col u \<noteq> Unvisited \<Longrightarrow> col' u = col u"
proof (induction g depth col v and g depth col vs arbitrary: col' and col' rule: visit_visit_all.induct)
  case (1 g depth col v)
  from "1.prems"(1) show ?case
  proof (cases rule: visit_Marked_cases)
    case finished
    then show ?thesis by simp
  next
    case (explored depth' col'')
    from explored(1) "1.prems"(2) have "u \<noteq> v" by auto
    with "1.prems"(2) have "(col(v := InProgress)) u \<noteq> Unvisited" by simp
    from "1.IH" [OF explored(1,2,3) this] \<open>u \<noteq> v\<close> explored(4)
    show ?thesis by simp
  qed
next
  case (2 g depth col)
  then show ?case by simp
next
  case (3 g depth col v vs)
  from "3.prems"(1) obtain col1 where
    v: "visit g depth col v = Marked col1" and vs: "visit_all g depth col1 vs = Marked col'"
    by (rule visit_all_Cons_Marked)
  from "3.IH"(1) [OF v "3.prems"(2)] have "col1 u = col u" .
  with "3.IH"(2) [OF v vs] "3.prems"(2) show ?case by simp
qed


lemma visit_no_new_in_progress:
  "visit g depth col v = Marked col' \<Longrightarrow> col' u = InProgress \<Longrightarrow> col u = InProgress"
  and visit_all_no_new_in_progress:
  "visit_all g depth col vs = Marked col' \<Longrightarrow> col' u = InProgress \<Longrightarrow> col u = InProgress"
proof (induction g depth col v and g depth col vs arbitrary: col' and col' rule: visit_visit_all.induct)
  case (1 g depth col v)
  from "1.prems"(1) show ?case
  proof (cases rule: visit_Marked_cases)
    case finished
    with "1.prems"(2) show ?thesis by simp
  next
    case (explored depth' col'')
    from explored(4) "1.prems"(2) have "u \<noteq> v" and "col'' u = InProgress"
      by (auto split: if_splits)
    from "1.IH" [OF explored(1,2,3) this(2)] \<open>u \<noteq> v\<close>
    show ?thesis by simp
  qed
next
  case (2 g depth col)
  then show ?case by simp
next
  case (3 g depth col v vs)
  from "3.prems"(1) obtain col1 where
    v: "visit g depth col v = Marked col1" and vs: "visit_all g depth col1 vs = Marked col'"
    by (rule visit_all_Cons_Marked)
  from "3.IH"(2) [OF v vs "3.prems"(2)] have "col1 u = InProgress" .
  from "3.IH"(1) [OF v this] show ?case .
qed

lemma visit_done: "visit g depth col v = Marked col' \<Longrightarrow> col' v = Done"
  by (erule visit_Marked_cases) simp_all

lemma visit_all_done:
  "visit_all g depth col vs = Marked col' \<Longrightarrow> v \<in> set vs \<Longrightarrow> col' v = Done"
proof (induction vs arbitrary: col)
  case Nil
  then show ?case by simp
next
  case (Cons x vs)
  from Cons.prems(1) obtain col1 where
    x: "visit g depth col x = Marked col1" and vs: "visit_all g depth col1 vs = Marked col'"
    by (rule visit_all_Cons_Marked)
  show ?case
  proof (cases "v \<in> set vs")
    case True
    from Cons.IH [OF vs True] show ?thesis .
  next
    case False
    with Cons.prems(2) have "v = x" by simp
    with visit_done [OF x] have "col1 v = Done" by simp
    with visit_all_keeps [OF vs, of v] show ?thesis by simp
  qed
qed

text \<open>A sound marking stays sound: the done nodes are closed under dependencies and lie on no cycle.\<close>

lemma sound_reaches_done:
  assumes "sound_marking g col" and "(u, w) \<in> (edges g)\<^sup>*" and "col u = Done"
  shows "col w = Done"
  using assms(2,3)
proof (induction rule: rtrancl_induct)
  case base
  then show ?case .
next
  case (step y z)
  from step.hyps(2) have "z \<in> set (successors g y)" by (simp add: edges_def)
  with step.IH [OF step.prems] assms(1) show ?case
    unfolding sound_marking_def by blast
qed

lemma sound_start:
  assumes "sound_marking g col" and "col v = Unvisited"
  shows "sound_marking g (col(v := InProgress))"
  unfolding sound_marking_def
proof (intro conjI allI impI)
  fix u w assume d: "(col(v := InProgress)) u = Done" and w: "w \<in> set (successors g u)"
  from d have "u \<noteq> v" "col u = Done" by (auto split: if_splits)
  with assms(1) w have "col w = Done" unfolding sound_marking_def by blast
  with assms(2) have "w \<noteq> v" by auto
  with \<open>col w = Done\<close> show "(col(v := InProgress)) w = Done" by simp
next
  fix u assume "(col(v := InProgress)) u = Done"
  then have "col u = Done" by (auto split: if_splits)
  with assms(1) show "(u, u) \<notin> (edges g)\<^sup>+" unfolding sound_marking_def by blast
qed

lemma sound_finish:
  assumes sound: "sound_marking g col" and v: "col v = InProgress"
    and succs: "\<forall>w \<in> set (successors g v). col w = Done"
  shows "sound_marking g (col(v := Done))"
  unfolding sound_marking_def
proof (intro conjI allI impI)
  fix u w assume d: "(col(v := Done)) u = Done" and w: "w \<in> set (successors g u)"
  show "(col(v := Done)) w = Done"
  proof (cases "u = v")
    case True
    with succs w show ?thesis by simp
  next
    case False
    with d have "col u = Done" by simp
    with sound w have "col w = Done" unfolding sound_marking_def by blast
    then show ?thesis by simp
  qed
next
  fix u assume d: "(col(v := Done)) u = Done"
  show "(u, u) \<notin> (edges g)\<^sup>+"
  proof (cases "u = v")
    case False
    with d have "col u = Done" by simp
    with sound show ?thesis unfolding sound_marking_def by blast
  next
    case True
    show ?thesis
    proof
      assume "(u, u) \<in> (edges g)\<^sup>+"
      with True have "(v, v) \<in> (edges g)\<^sup>+" by simp
      then obtain w where vw: "(v, w) \<in> edges g" and wv: "(w, v) \<in> (edges g)\<^sup>*"
        by (blast dest: tranclD)
      from vw have "w \<in> set (successors g v)" by (simp add: edges_def)
      with succs have "col w = Done" by blast
      from sound_reaches_done [OF sound wv this] v show False by simp
    qed
  qed
qed

lemma visit_sound:
  "visit g depth col v = Marked col' \<Longrightarrow> sound_marking g col \<Longrightarrow> sound_marking g col'"
  and visit_all_sound:
  "visit_all g depth col vs = Marked col' \<Longrightarrow> sound_marking g col \<Longrightarrow> sound_marking g col'"
proof (induction g depth col v and g depth col vs arbitrary: col' and col' rule: visit_visit_all.induct)
  case (1 g depth col v)
  from "1.prems"(1) show ?case
  proof (cases rule: visit_Marked_cases)
    case finished
    with "1.prems"(2) show ?thesis by simp
  next
    case (explored depth' col'')
    from "1.IH" [OF explored(1,2,3) sound_start [OF "1.prems"(2) explored(1)]]
    have sound: "sound_marking g col''" .
    from visit_all_keeps [OF explored(3), of v] have v: "col'' v = InProgress" by simp
    from visit_all_done [OF explored(3)]
    have "\<forall>w \<in> set (successors g v). col'' w = Done" by blast
    from sound_finish [OF sound v this] show ?thesis unfolding explored(4) .
  qed
next
  case (2 g depth col)
  then show ?case by simp
next
  case (3 g depth col v vs)
  from "3.prems"(1) obtain col1 where
    v: "visit g depth col v = Marked col1" and vs: "visit_all g depth col1 vs = Marked col'"
    by (rule visit_all_Cons_Marked)
  from "3.IH"(2) [OF v vs "3.IH"(1) [OF v "3.prems"(2)]] show ?case .
qed

lemma marked_not_cyclic:
  assumes "detect_cycles g = Marked col"
  shows "\<not> cyclic g"
proof
  assume "cyclic g"
  then obtain v where cyc: "(v, v) \<in> (edges g)\<^sup>+" unfolding cyclic_def by blast
  then obtain w where "(v, w) \<in> edges g" by (blast dest: tranclD)
  then have "successors g v \<noteq> []" by (auto simp: edges_def)
  then have "map_of g v \<noteq> None" by (auto simp: successors_def split: option.splits)
  then have "v \<in> set (map fst g)" by (auto simp: map_of_eq_None_iff)
  with assms have "col v = Done"
    unfolding detect_cycles_def by (rule visit_all_done)
  moreover have "sound_marking g (\<lambda>v. Unvisited)" by (simp add: sound_marking_def)
  with assms have "sound_marking g col"
    unfolding detect_cycles_def by (rule visit_all_sound)
  ultimately show False using cyc unfolding sound_marking_def by blast
qed

text \<open>The depth allowed is never used up: the nodes in progress are distinct registered nodes.\<close>

lemma in_progress_update:
  "{u. (col(v := InProgress)) u = InProgress} = insert v {u. col u = InProgress}"
  by auto

lemma visit_not_exhausted:
  "{u. col u = InProgress} \<subseteq> fst ` set g \<Longrightarrow>
   card (fst ` set g) < card {u. col u = InProgress} + depth \<Longrightarrow>
   visit g depth col v \<noteq> Exhausted"
  and visit_all_not_exhausted:
  "{u. col u = InProgress} \<subseteq> fst ` set g \<Longrightarrow>
   card (fst ` set g) < card {u. col u = InProgress} + depth \<Longrightarrow>
   visit_all g depth col vs \<noteq> Exhausted"
proof (induction g depth col v and g depth col vs rule: visit_visit_all.induct)
  case (1 g depth col v)
  let ?ids = "fst ` set g" and ?inp = "{u. col u = InProgress}"
  have fin: "finite ?inp" using "1.prems"(1) by (rule finite_subset) simp
  show ?case
  proof (cases "col v")
    case InProgress
    then show ?thesis by (subst visit.simps) simp
  next
    case Done
    then show ?thesis by (subst visit.simps) simp
  next
    case Unvisited
    have "card ?inp \<le> card ?ids" using "1.prems"(1) by (intro card_mono) simp_all
    with "1.prems"(2) obtain depth' where depth: "depth = Suc depth'"
      by (cases depth) auto
    show ?thesis
    proof (cases "v \<in> ?ids")
      case False
      then have "map_of g v = None" by (simp add: map_of_eq_None_iff)
      then have "successors g v = []" by (simp add: successors_def)
      with Unvisited depth show ?thesis by (subst visit.simps) simp
    next
      case True
      from Unvisited have "v \<notin> ?inp" by simp
      with fin have "card (insert v ?inp) = Suc (card ?inp)" by simp
      with "1.prems"(2) depth
      have b: "card ?ids < card {u. (col(v := InProgress)) u = InProgress} + depth'"
        unfolding in_progress_update by arith
      from True "1.prems"(1)
      have a: "{u. (col(v := InProgress)) u = InProgress} \<subseteq> ?ids"
        unfolding in_progress_update by blast
      from "1.IH" [OF Unvisited depth a b]
      have inner: "visit_all g depth' (col(v := InProgress)) (successors g v) \<noteq> Exhausted" .
      have "visit g depth col v =
              (case visit_all g depth' (col(v := InProgress)) (successors g v) of
                 Marked col' \<Rightarrow> Marked (col'(v := Done))
               | failed \<Rightarrow> failed)"
        using Unvisited depth by (subst visit.simps) simp
      with inner show ?thesis
        by (cases "visit_all g depth' (col(v := InProgress)) (successors g v)") simp_all
    qed
  qed
next
  case (2 g depth col)
  then show ?case by simp
next
  case (3 g depth col v vs)
  from "3.IH"(1) [OF "3.prems"] have v: "visit g depth col v \<noteq> Exhausted" .
  show ?case
  proof (cases "visit g depth col v")
    case Cycle
    then show ?thesis by simp
  next
    case Exhausted
    with v show ?thesis by simp
  next
    case (Marked col1)
    have "{u. col1 u = InProgress} = {u. col u = InProgress}"
      using visit_no_new_in_progress [OF Marked] visit_keeps [OF Marked] by force
    with "3.IH"(2) [OF Marked] "3.prems" Marked show ?thesis by simp
  qed
qed

lemma detect_cycles_not_exhausted: "detect_cycles g \<noteq> Exhausted"
proof -
  have "card (fst ` set g) \<le> length g"
    by (metis card_length length_map list.set_map)
  then have "card (fst ` set g) < card {u. (\<lambda>v. Unvisited) u = InProgress} + Suc (length g)"
    by simp
  moreover have "{u. (\<lambda>v. Unvisited) u = InProgress} \<subseteq> fst ` set g" by simp
  ultimately show ?thesis
    unfolding detect_cycles_def by (intro visit_all_not_exhausted)
qed

lemma cyclic_detected: "cyclic g \<Longrightarrow> detect_cycles g = Cycle"
  using marked_not_cyclic [of g] detect_cycles_not_exhausted [of g]
  by (cases "detect_cycles g") auto

text \<open>The detection is not vacuous: it passes an acyclic graph, and a chain of two nodes runs.\<close>

lemma detect_cycles_passes_a_dag:
  "detect_cycles [(0, []), (1, [0]), (2, [1, 0])] \<noteq> Cycle"
  by (simp add: detect_cycles_def visit.simps successors_def)

lemma detect_cycles_finds_a_two_cycle:
  "detect_cycles [(0, [1]), (1, [0])] = Cycle"
  by (simp add: detect_cycles_def visit.simps successors_def)

lemma chain_crew_runs_in_order:
  "fst (crew_run (stub_env (Some ''key'') [''OUT_A'', ''OUT_B''] []) chain_crew (0, []))
     = Inr [''A'' \<mapsto> ''OUT_A'', ''B'' \<mapsto> ''OUT_B'']
   \<and> filter (\<lambda>ev. case ev of NodeRun v \<Rightarrow> True | _ \<Rightarrow> False)
        (snd (snd (snd (crew_run (stub_env (Some ''key'') [''OUT_A'', ''OUT_B''] []) chain_crew (0, [])))))
     = [NodeRun 0, NodeRun 1]"
  by (simp add: crew_run_def build_graph_def chain_crew_def poet_node_def translator_node_def
        detect_cycles_def visit.simps successors_def next_ready_def agent_node_run_def
        propagate_def agent_node_prompt_def ReactAgent_run_def ReactAgent_run_locals_def
        ReactAgent_seed_def request_completion_def stub_env_def stub_client_def Let_def
        eval_nat_numeral)

text \<open>
  C2. When the dependency edges of the registered nodes contain a cycle, running the
  crew (which closing its scope does) raises \<^verbatim>\<open>CyclicDependencyError\<close>; there is no
  result mapping, and the crew, the outside world and the trace are as they were, so
  no node has run.
\<close>

theorem cyclic_crew_raises_before_any_run:
  assumes "cyclic (build_graph crew)"
  shows "crew_run env crew s = (Inl CyclicDependencyError, crew, s)"
  using cyclic_detected [OF assms] by (simp add: crew_run_def)

theorem cyclic_crew_raises_before_any_run_witness:
  "cyclic (build_graph cyclic_crew)
   \<and> crew_run (stub_env (Some ''key'') [''poem'', ''translation''] []) cyclic_crew (0, [])
       = (Inl CyclicDependencyError, cyclic_crew, (0, []))"
proof -
  have g: "build_graph cyclic_crew = [(0, [1]), (1, [0])]"
    by (simp add: build_graph_def cyclic_crew_def poet_node_def translator_node_def)
  have "(0, 1) \<in> edges [(0, [1]), (1, [0])]" and "(1, 0) \<in> edges [(0, [1]), (1, [0])]"
    by (simp_all add: edges_def successors_def)
  then have "(0, 0) \<in> (edges [(0, [1]), (1, [0])])\<^sup>+"
    by (rule trancl_into_trancl [OF r_into_trancl])
  then have cyc: "cyclic (build_graph cyclic_crew)"
    unfolding cyclic_def g by blast
  from cyclic_crew_raises_before_any_run [OF cyc] cyc show ?thesis by simp
qed

end
